theory Spec2Isabelle
  imports Complex_Main "HOL-Library.Word"
begin

section \<open>Tessellation dump comparison (tools/compare\_tessellation\_logs.py)\<close>

text \<open>
  The development embeds the parser, the decoder, the triangle metrics and the
  comparator of \<^verbatim>\<open>compare_tessellation_logs.py\<close>.

  \<^item> A Python \<^verbatim>\<open>str\<close> is a list of code points (\<open>nat list\<close>), a \<^verbatim>\<open>bytes\<close>
    value a list of 8-bit words.
  \<^item> A Python \<^verbatim>\<open>float\<close> is a value of \<open>pyfloat\<close>: a finite real, an infinity
    or NaN. The two signed zeros are one value. Every arithmetic result is
    rounded to binary64 by \<open>binary64_round\<close>, so overflow and underflow are part
    of the model. \<^verbatim>\<open>math.hypot\<close> and \<^verbatim>\<open>math.acos\<close> are idealised as correctly
    rounded; the library functions can differ from that in the last place. The
    theorems below evaluate them only where the exact result is a binary64 number
    (\<open>hypot x 0 = \<bar>x\<bar>\<close>, a scaled 3-4-5 triangle, \<open>acos 1 = 0\<close>); apart from that they
    use only that a result of \<open>acos\<close> is not negative.
  \<^item> An exception is a value of \<open>error\<close>; a function that can raise returns
    \<open>error + 'a\<close>.
  \<^item> The builtins \<^verbatim>\<open>int(str)\<close> and \<^verbatim>\<open>float(str)\<close> are parameters of the parser
    (\<open>None\<close> stands for their \<^verbatim>\<open>ValueError\<close>).
  \<^item> A leading underscore of a source name is dropped.
\<close>

subsection \<open>Strings\<close>

type_synonym pystr = "nat list"

definition lit :: "string \<Rightarrow> pystr" where
  "lit s = map of_char s"

text \<open>\<^verbatim>\<open>str.isspace\<close> on one code point.\<close>

definition py_isspace :: "nat \<Rightarrow> bool" where
  "py_isspace c \<longleftrightarrow>
     (9 \<le> c \<and> c \<le> 13) \<or> (28 \<le> c \<and> c \<le> 32) \<or> c = 133 \<or> c = 160 \<or> c = 5760
     \<or> (8192 \<le> c \<and> c \<le> 8202) \<or> c = 8232 \<or> c = 8233 \<or> c = 8239 \<or> c = 8287
     \<or> c = 12288"

definition py_strip :: "pystr \<Rightarrow> pystr" where
  "py_strip s = rev (dropWhile py_isspace (rev (dropWhile py_isspace s)))"

definition startswith :: "pystr \<Rightarrow> pystr \<Rightarrow> bool" where
  "startswith s p \<longleftrightarrow> take (length p) s = p"

definition endswith :: "pystr \<Rightarrow> pystr \<Rightarrow> bool" where
  "endswith s p \<longleftrightarrow> length p \<le> length s \<and> drop (length s - length p) s = p"

text \<open>
  \<^verbatim>\<open>s.split(sep)\<close> and \<^verbatim>\<open>s.split(sep, maxsplit)\<close> for a non-empty separator:
  the scan is left to right, \<open>acc\<close> holds the current piece reversed, and
  \<open>m\<close> is the number of splits still allowed (\<open>None\<close>: no limit).
\<close>

function py_split_aux :: "pystr \<Rightarrow> nat option \<Rightarrow> pystr \<Rightarrow> pystr \<Rightarrow> pystr list" where
  "py_split_aux sep m acc [] = [rev acc]"
| "py_split_aux sep m acc (c # cs) =
     (if sep \<noteq> [] \<and> m \<noteq> Some 0 \<and> take (length sep) (c # cs) = sep
      then rev acc # py_split_aux sep (map_option (\<lambda>k. k - 1) m) [] (drop (length sep) (c # cs))
      else py_split_aux sep m (c # acc) cs)"
  by pat_completeness auto
termination
  by (relation "measure (\<lambda>(sep, m, acc, s). length s)") auto

definition py_split :: "pystr \<Rightarrow> pystr \<Rightarrow> pystr list" where
  "py_split s sep = py_split_aux sep None [] s"

definition py_split_max :: "pystr \<Rightarrow> pystr \<Rightarrow> nat \<Rightarrow> pystr list" where
  "py_split_max s sep k = py_split_aux sep (Some k) [] s"

text \<open>\<^verbatim>\<open>s.split()\<close>: the maximal runs of non-whitespace code points.\<close>

fun py_split_ws_aux :: "pystr \<Rightarrow> pystr \<Rightarrow> pystr list" where
  "py_split_ws_aux acc [] = (if acc = [] then [] else [rev acc])"
| "py_split_ws_aux acc (c # cs) =
     (if py_isspace c
      then (if acc = [] then py_split_ws_aux [] cs else rev acc # py_split_ws_aux [] cs)
      else py_split_ws_aux (c # acc) cs)"

definition py_split_ws :: "pystr \<Rightarrow> pystr list" where
  "py_split_ws s = py_split_ws_aux [] s"

subsection \<open>Floats, errors and records\<close>

datatype pyfloat = Fin real | PInf | NInf | NaN

datatype error = ParseError pystr | ValueError | IndexError | ZeroDivisionError

type_synonym Point = "pyfloat \<times> pyfloat"
type_synonym Triangle = "Point \<times> Point \<times> Point"

record PolylineDump =
  index :: nat
  point_count :: int
  width :: pyfloat
  layer :: pystr
  triangles :: "Triangle list"

record py_builtins =
  int_of_str :: "pystr \<Rightarrow> int option"
  float_of_str :: "pystr \<Rightarrow> pyfloat option"

definition POLYLINE_PREFIX :: pystr where
  "POLYLINE_PREFIX = lit ''Polyline:''"

definition TRIANGLE_PREFIX :: pystr where
  "TRIANGLE_PREFIX = lit ''Triangle''"

subsection \<open>Header lines\<close>

text \<open>
  The body of the \<^verbatim>\<open>try\<close> block of \<^verbatim>\<open>_parse_polyline_header\<close>. The tuple
  unpacking of \<open>parts\<close> raises \<^verbatim>\<open>ValueError\<close> unless there are exactly three
  parts; \<^verbatim>\<open>[0]\<close> and \<^verbatim>\<open>[1]\<close> raise \<^verbatim>\<open>IndexError\<close> on a list that is too short.
\<close>

definition parse_polyline_header_try :: "py_builtins \<Rightarrow> pystr \<Rightarrow> nat \<Rightarrow> error + PolylineDump" where
  "parse_polyline_header_try B line idx =
     (let head = py_strip (drop (length POLYLINE_PREFIX) line);
          parts = map py_strip (py_split head (lit '',''))
      in case parts of
           [point_part, width_part, layer_part] \<Rightarrow>
             (case py_split_ws point_part of
                [] \<Rightarrow> Inl IndexError
              | tok # _ \<Rightarrow>
                  (case int_of_str B tok of
                     None \<Rightarrow> Inl ValueError
                   | Some pc \<Rightarrow>
                       (case py_split_max width_part (lit '':'') 1 of
                          _ # w # _ \<Rightarrow>
                            (case float_of_str B w of
                               None \<Rightarrow> Inl ValueError
                             | Some wd \<Rightarrow>
                                 (case py_split_max layer_part (lit '':'') 1 of
                                    _ # l # _ \<Rightarrow>
                                      Inr \<lparr>index = idx, point_count = pc, width = wd,
                                           layer = py_strip l, triangles = []\<rparr>
                                  | _ \<Rightarrow> Inl IndexError))
                        | _ \<Rightarrow> Inl IndexError)))
         | _ \<Rightarrow> Inl ValueError)"

definition header_error :: "pystr \<Rightarrow> error" where
  "header_error line = ParseError (lit ''Unable to parse polyline header: '' @ [39] @ line @ [39])"

definition parse_polyline_header :: "py_builtins \<Rightarrow> pystr \<Rightarrow> nat \<Rightarrow> error + PolylineDump" where
  "parse_polyline_header B line idx =
     (case parse_polyline_header_try B line idx of
        Inl ValueError \<Rightarrow> Inl (header_error line)
      | Inl IndexError \<Rightarrow> Inl (header_error line)
      | r \<Rightarrow> r)"

subsection \<open>Triangle lines\<close>

text \<open>One pass of the loop over the chunks in \<^verbatim>\<open>_parse_triangle_line\<close>.\<close>

definition vertex_fields :: "pystr \<Rightarrow> pystr list" where
  "vertex_fields chunk0 =
     (let chunk1 = py_strip chunk0;
          chunk2 = (if endswith chunk1 (lit '']'') then butlast chunk1 else chunk1);
          chunk3 = (if startswith chunk2 (lit ''['') then tl chunk2 else chunk2)
      in map py_strip (py_split_max chunk3 (lit '','') 1))"

definition parse_vertex :: "py_builtins \<Rightarrow> pystr \<Rightarrow> error + Point" where
  "parse_vertex B chunk =
     (case vertex_fields chunk of
        [x_str, y_str] \<Rightarrow>
          (case float_of_str B x_str of
             None \<Rightarrow> Inl ValueError
           | Some x \<Rightarrow>
               (case float_of_str B y_str of
                  None \<Rightarrow> Inl ValueError
                | Some y \<Rightarrow> Inr (x, y)))
      | _ \<Rightarrow> Inl ValueError)"

fun parse_vertices :: "py_builtins \<Rightarrow> pystr list \<Rightarrow> error + Point list" where
  "parse_vertices B [] = Inr []"
| "parse_vertices B (chunk # chunks) =
     (case parse_vertex B chunk of
        Inl e \<Rightarrow> Inl e
      | Inr v \<Rightarrow>
          (case parse_vertices B chunks of
             Inl e \<Rightarrow> Inl e
           | Inr vs \<Rightarrow> Inr (v # vs)))"

definition triples_of :: "pystr \<Rightarrow> pystr list" where
  "triples_of payload = py_split (py_strip payload) (lit ''],'')"

definition parse_triangle_line_try :: "py_builtins \<Rightarrow> pystr \<Rightarrow> error + Triangle" where
  "parse_triangle_line_try B line =
     (case py_split_max line (lit '':'') 1 of
        [_, payload] \<Rightarrow>
          (case parse_vertices B (triples_of payload) of
             Inl e \<Rightarrow> Inl e
           | Inr vertices \<Rightarrow>
               (case vertices of
                  [v0, v1, v2] \<Rightarrow> Inr (v0, v1, v2)
                | _ \<Rightarrow> Inl ValueError))
      | _ \<Rightarrow> Inl ValueError)"

definition triangle_error :: "pystr \<Rightarrow> error" where
  "triangle_error line = ParseError (lit ''Unable to parse triangle line: '' @ [39] @ line @ [39])"

text \<open>\<^verbatim>\<open>except Exception\<close> turns every exception of the body into a \<^verbatim>\<open>ParseError\<close>.\<close>

definition parse_triangle_line :: "py_builtins \<Rightarrow> pystr \<Rightarrow> error + Triangle" where
  "parse_triangle_line B line =
     (case parse_triangle_line_try B line of
        Inl e \<Rightarrow> Inl (triangle_error line)
      | Inr t \<Rightarrow> Inr t)"

subsection \<open>Sample builtins\<close>

text \<open>
  A finite table that agrees with \<^verbatim>\<open>int\<close> and \<^verbatim>\<open>float\<close> on the strings used in the
  examples below; every theorem is stated for an arbitrary \<open>py_builtins\<close>.
\<close>

definition example_builtins :: py_builtins where
  "example_builtins =
     \<lparr>int_of_str = (\<lambda>s. if s = lit ''3'' then Some 3 else None),
      float_of_str = (\<lambda>s. if py_strip s = lit ''0.5'' then Some (Fin (1/2))
                           else if py_strip s = lit ''0'' then Some (Fin 0)
                           else if py_strip s = lit ''1'' then Some (Fin 1) else None)\<rparr>"

text \<open>
  A chunk is numeric when its two fields exist and \<^verbatim>\<open>float\<close> accepts both.
\<close>

definition numeric_vertex :: "py_builtins \<Rightarrow> pystr \<Rightarrow> bool" where
  "numeric_vertex B chunk \<longleftrightarrow>
     (case vertex_fields chunk of
        [x_str, y_str] \<Rightarrow> float_of_str B x_str \<noteq> None \<and> float_of_str B y_str \<noteq> None
      | _ \<Rightarrow> False)"

subsection \<open>Decoding\<close>

text \<open>
  \<^verbatim>\<open>bytes.decode\<close> with the default strict error handler, for the four encodings
  that \<^verbatim>\<open>_iter_lines\<close> names; \<open>None\<close> stands for \<^verbatim>\<open>UnicodeDecodeError\<close>. UTF-8
  rejects overlong forms, surrogates and values above U+10FFFF. \<^verbatim>\<open>utf-16\<close> reads a
  byte-order mark and falls back to the native order, taken as little-endian.
\<close>

type_synonym bytes = "8 word list"

definition cont :: "8 word \<Rightarrow> bool" where
  "cont b \<longleftrightarrow> 0x80 \<le> b \<and> b \<le> 0xBF"

definition second_ok :: "8 word \<Rightarrow> 8 word \<Rightarrow> bool" where
  "second_ok b0 b1 \<longleftrightarrow>
     (if b0 = 0xE0 then 0xA0 \<le> b1 \<and> b1 \<le> 0xBF
      else if b0 = 0xED then 0x80 \<le> b1 \<and> b1 \<le> 0x9F
      else if b0 = 0xF0 then 0x90 \<le> b1 \<and> b1 \<le> 0xBF
      else if b0 = 0xF4 then 0x80 \<le> b1 \<and> b1 \<le> 0x8F
      else cont b1)"

fun decode_utf8 :: "bytes \<Rightarrow> pystr option" where
  "decode_utf8 [] = Some []"
| "decode_utf8 (b0 # bs) =
     (if b0 < 0x80 then map_option ((#) (unat b0)) (decode_utf8 bs)
      else if 0xC2 \<le> b0 \<and> b0 \<le> 0xDF then
        (case bs of
           b1 # r \<Rightarrow>
             if cont b1
             then map_option ((#) ((unat b0 - 0xC0) * 64 + (unat b1 - 0x80))) (decode_utf8 r)
             else None
         | _ \<Rightarrow> None)
      else if 0xE0 \<le> b0 \<and> b0 \<le> 0xEF then
        (case bs of
           b1 # b2 # r \<Rightarrow>
             if second_ok b0 b1 \<and> cont b2
             then map_option ((#) ((unat b0 - 0xE0) * 4096 + (unat b1 - 0x80) * 64
                                   + (unat b2 - 0x80))) (decode_utf8 r)
             else None
         | _ \<Rightarrow> None)
      else if 0xF0 \<le> b0 \<and> b0 \<le> 0xF4 then
        (case bs of
           b1 # b2 # b3 # r \<Rightarrow>
             if second_ok b0 b1 \<and> cont b2 \<and> cont b3
             then map_option ((#) ((unat b0 - 0xF0) * 262144 + (unat b1 - 0x80) * 4096
                                   + (unat b2 - 0x80) * 64 + (unat b3 - 0x80))) (decode_utf8 r)
             else None
         | _ \<Rightarrow> None)
      else None)"

definition decode_utf8_sig :: "bytes \<Rightarrow> pystr option" where
  "decode_utf8_sig bs =
     (if take 3 bs = [0xEF, 0xBB, 0xBF] then decode_utf8 (drop 3 bs) else decode_utf8 bs)"

fun units_le :: "bytes \<Rightarrow> nat list option" where
  "units_le [] = Some []"
| "units_le [b] = None"
| "units_le (lo # hi # r) = map_option ((#) (unat lo + 256 * unat hi)) (units_le r)"

fun units_be :: "bytes \<Rightarrow> nat list option" where
  "units_be [] = Some []"
| "units_be [b] = None"
| "units_be (hi # lo # r) = map_option ((#) (unat lo + 256 * unat hi)) (units_be r)"

fun decode_units :: "nat list \<Rightarrow> pystr option" where
  "decode_units [] = Some []"
| "decode_units (u # us) =
     (if 0xD800 \<le> u \<and> u \<le> 0xDBFF then
        (case us of
           l # r \<Rightarrow>
             if 0xDC00 \<le> l \<and> l \<le> 0xDFFF
             then map_option ((#) (0x10000 + (u - 0xD800) * 1024 + (l - 0xDC00))) (decode_units r)
             else None
         | [] \<Rightarrow> None)
      else if 0xDC00 \<le> u \<and> u \<le> 0xDFFF then None
      else map_option ((#) u) (decode_units us))"

definition decode_utf16_le :: "bytes \<Rightarrow> pystr option" where
  "decode_utf16_le bs = (case units_le bs of None \<Rightarrow> None | Some us \<Rightarrow> decode_units us)"

definition decode_utf16_be :: "bytes \<Rightarrow> pystr option" where
  "decode_utf16_be bs = (case units_be bs of None \<Rightarrow> None | Some us \<Rightarrow> decode_units us)"

definition decode_utf16 :: "bytes \<Rightarrow> pystr option" where
  "decode_utf16 bs =
     (if take 2 bs = [0xFF, 0xFE] then decode_utf16_le (drop 2 bs)
      else if take 2 bs = [0xFE, 0xFF] then decode_utf16_be (drop 2 bs)
      else decode_utf16_le bs)"

datatype encoding = UTF8 | UTF8_SIG | UTF16 | UTF16_LE

fun decode :: "encoding \<Rightarrow> bytes \<Rightarrow> pystr option" where
  "decode UTF8 raw = decode_utf8 raw"
| "decode UTF8_SIG raw = decode_utf8_sig raw"
| "decode UTF16 raw = decode_utf16 raw"
| "decode UTF16_LE raw = decode_utf16_le raw"

text \<open>\<^verbatim>\<open>str.splitlines\<close>: the line boundaries of Python, \<^verbatim>\<open>\r\n\<close> counting as one.\<close>

definition is_linebreak :: "nat \<Rightarrow> bool" where
  "is_linebreak c \<longleftrightarrow> (10 \<le> c \<and> c \<le> 13) \<or> (28 \<le> c \<and> c \<le> 30) \<or> c = 133 \<or> c = 8232 \<or> c = 8233"

fun splitlines_aux :: "pystr \<Rightarrow> pystr \<Rightarrow> pystr list" where
  "splitlines_aux acc [] = (if acc = [] then [] else [rev acc])"
| "splitlines_aux acc (c # cs) =
     (if c = 13 then
        (case cs of
           d # ds \<Rightarrow> if d = 10 then rev acc # splitlines_aux [] ds
                     else rev acc # splitlines_aux [] cs
         | [] \<Rightarrow> [rev acc])
      else if is_linebreak c then rev acc # splitlines_aux [] cs
      else splitlines_aux (c # acc) cs)"

definition splitlines :: "pystr \<Rightarrow> pystr list" where
  "splitlines s = splitlines_aux [] s"

text \<open>
  \<^verbatim>\<open>_iter_lines\<close>: the \<^verbatim>\<open>for\<close> loop over the encodings with its \<^verbatim>\<open>break\<close> and its
  \<^verbatim>\<open>else\<close> branch. The file's bytes are the argument \<open>raw\<close>.
\<close>

definition encodings :: "encoding list" where
  "encodings = [UTF8, UTF8_SIG, UTF16, UTF16_LE]"

fun try_decodings :: "encoding list \<Rightarrow> bytes \<Rightarrow> pystr option" where
  "try_decodings [] raw = None"
| "try_decodings (e # es) raw =
     (case decode e raw of Some text \<Rightarrow> Some text | None \<Rightarrow> try_decodings es raw)"

definition decode_error :: "pystr \<Rightarrow> error" where
  "decode_error path = ParseError (lit ''Unable to decode '' @ path @ lit '' as UTF-8/UTF-16'')"

definition iter_lines :: "pystr \<Rightarrow> bytes \<Rightarrow> error + pystr list" where
  "iter_lines path raw =
     (case try_decodings encodings raw of
        None \<Rightarrow> Inl (decode_error path)
      | Some text \<Rightarrow> Inr (splitlines text))"

subsection \<open>The dump parser\<close>

text \<open>
  The state of the loop of \<^verbatim>\<open>parse_log\<close> is the list \<open>polylines\<close> and the open record
  \<open>current\<close>. \<^verbatim>\<open>current.triangles.append\<close> updates the open record, which no
  other name refers to.
\<close>

definition finish_current :: "PolylineDump list \<times> PolylineDump option
    \<Rightarrow> PolylineDump list \<times> PolylineDump option" where
  "finish_current st =
     (case snd st of
        Some cur \<Rightarrow> (fst st @ [cur], None)
      | None \<Rightarrow> st)"

definition orphan_error :: "pystr \<Rightarrow> error" where
  "orphan_error path =
     ParseError (lit ''Triangle line encountered before polyline header in '' @ path)"

fun parse_lines :: "py_builtins \<Rightarrow> pystr \<Rightarrow> PolylineDump list \<times> PolylineDump option
    \<Rightarrow> pystr list \<Rightarrow> error + PolylineDump list \<times> PolylineDump option" where
  "parse_lines B path st [] = Inr st"
| "parse_lines B path st (raw_line # rest) =
     (let line = py_strip raw_line in
      if line = [] then parse_lines B path st rest
      else if startswith line POLYLINE_PREFIX then
        (let st' = finish_current st in
         case parse_polyline_header B line (length (fst st')) of
           Inl e \<Rightarrow> Inl e
         | Inr p \<Rightarrow> parse_lines B path (fst st', Some p) rest)
      else if startswith line TRIANGLE_PREFIX then
        (case snd st of
           None \<Rightarrow> Inl (orphan_error path)
         | Some cur \<Rightarrow>
             (case parse_triangle_line B line of
                Inl e \<Rightarrow> Inl e
              | Inr triangle \<Rightarrow>
                  parse_lines B path
                    (fst st, Some (cur\<lparr>triangles := triangles cur @ [triangle]\<rparr>)) rest))
      else parse_lines B path st rest)"

definition parse_decoded :: "py_builtins \<Rightarrow> pystr \<Rightarrow> pystr list \<Rightarrow> error + PolylineDump list" where
  "parse_decoded B path lines =
     (case parse_lines B path ([], None) lines of
        Inl e \<Rightarrow> Inl e
      | Inr st \<Rightarrow> Inr (fst (finish_current st)))"

definition parse_log :: "py_builtins \<Rightarrow> pystr \<Rightarrow> bytes \<Rightarrow> error + PolylineDump list" where
  "parse_log B path raw =
     (case iter_lines path raw of
        Inl e \<Rightarrow> Inl e
      | Inr lines \<Rightarrow> parse_decoded B path lines)"

text \<open>The triangle lines among \<open>ls\<close>, stripped, in order.\<close>

definition triangle_lines :: "pystr list \<Rightarrow> pystr list" where
  "triangle_lines ls =
     filter (\<lambda>l. l \<noteq> [] \<and> \<not> startswith l POLYLINE_PREFIX \<and> startswith l TRIANGLE_PREFIX)
       (map py_strip ls)"

definition is_header :: "pystr \<Rightarrow> bool" where
  "is_header raw_line \<longleftrightarrow> startswith (py_strip raw_line) POLYLINE_PREFIX"

subsection \<open>Float arithmetic\<close>

text \<open>
  Rounding to binary64, to nearest with ties to even: the unit in the last place of
  \<open>x\<close> is \<open>2\<close> to the power \<open>e\<close>, never below the subnormal spacing \<open>2 powr -1074\<close>;
  a result of magnitude \<open>2 ^ 1024\<close> or more is an infinity.
\<close>

definition round_half_even :: "real \<Rightarrow> int" where
  "round_half_even y =
     (let f = \<lfloor>y\<rfloor>; d = y - of_int f
      in if d < 1 / 2 then f else if 1 / 2 < d then f + 1 else if even f then f else f + 1)"

definition binary64_round :: "real \<Rightarrow> pyfloat" where
  "binary64_round x =
     (if x = 0 then Fin 0
      else let e = max (\<lfloor>log 2 \<bar>x\<bar>\<rfloor> - 52) (- 1074);
               r = of_int (round_half_even (x / 2 powr of_int e)) * 2 powr of_int e
           in if 2 ^ 1024 \<le> \<bar>r\<bar> then (if 0 < x then PInf else NInf) else Fin r)"

fun fsgn :: "pyfloat \<Rightarrow> real" where
  "fsgn (Fin x) = sgn x"
| "fsgn PInf = 1"
| "fsgn NInf = - 1"
| "fsgn NaN = 0"

fun fneg :: "pyfloat \<Rightarrow> pyfloat" where
  "fneg (Fin x) = Fin (- x)"
| "fneg PInf = NInf"
| "fneg NInf = PInf"
| "fneg NaN = NaN"

fun fabs :: "pyfloat \<Rightarrow> pyfloat" where
  "fabs (Fin x) = Fin \<bar>x\<bar>"
| "fabs PInf = PInf"
| "fabs NInf = PInf"
| "fabs NaN = NaN"

fun fadd :: "pyfloat \<Rightarrow> pyfloat \<Rightarrow> pyfloat" where
  "fadd NaN b = NaN"
| "fadd a NaN = NaN"
| "fadd (Fin x) (Fin y) = binary64_round (x + y)"
| "fadd PInf NInf = NaN"
| "fadd NInf PInf = NaN"
| "fadd PInf b = PInf"
| "fadd NInf b = NInf"
| "fadd a PInf = PInf"
| "fadd a NInf = NInf"

definition fsub :: "pyfloat \<Rightarrow> pyfloat \<Rightarrow> pyfloat" where
  "fsub a b = fadd a (fneg b)"

fun fmul :: "pyfloat \<Rightarrow> pyfloat \<Rightarrow> pyfloat" where
  "fmul NaN b = NaN"
| "fmul a NaN = NaN"
| "fmul (Fin x) (Fin y) = binary64_round (x * y)"
| "fmul a b = (if 0 < fsgn a * fsgn b then PInf else if fsgn a * fsgn b < 0 then NInf else NaN)"

text \<open>
  True division of floats: Python raises \<^verbatim>\<open>ZeroDivisionError\<close> when the divisor is
  zero, whatever the dividend.
\<close>

fun fquot :: "pyfloat \<Rightarrow> pyfloat \<Rightarrow> pyfloat" where
  "fquot NaN b = NaN"
| "fquot a NaN = NaN"
| "fquot (Fin x) (Fin y) = binary64_round (x / y)"
| "fquot (Fin x) b = Fin 0"
| "fquot a (Fin y) = (if 0 < fsgn a * sgn y then PInf else NInf)"
| "fquot a b = NaN"

definition fdiv :: "pyfloat \<Rightarrow> pyfloat \<Rightarrow> error + pyfloat" where
  "fdiv a b = (if b = Fin 0 then Inl ZeroDivisionError else Inr (fquot a b))"

text \<open>Comparisons: every comparison with NaN is false.\<close>

fun flt :: "pyfloat \<Rightarrow> pyfloat \<Rightarrow> bool" where
  "flt NaN b = False"
| "flt a NaN = False"
| "flt (Fin x) (Fin y) = (x < y)"
| "flt NInf NInf = False"
| "flt NInf b = True"
| "flt a NInf = False"
| "flt PInf b = False"
| "flt a PInf = True"

definition feq :: "pyfloat \<Rightarrow> pyfloat \<Rightarrow> bool" where
  "feq a b \<longleftrightarrow> a = b \<and> a \<noteq> NaN"

definition fle :: "pyfloat \<Rightarrow> pyfloat \<Rightarrow> bool" where
  "fle a b \<longleftrightarrow> flt a b \<or> feq a b"

text \<open>
  The builtins \<^verbatim>\<open>max\<close> and \<^verbatim>\<open>min\<close> keep their first argument unless a later one is
  strictly greater (smaller), so a NaN that is not first is skipped.
\<close>

definition py_max2 :: "pyfloat \<Rightarrow> pyfloat \<Rightarrow> pyfloat" where
  "py_max2 a b = (if flt a b then b else a)"

definition py_min2 :: "pyfloat \<Rightarrow> pyfloat \<Rightarrow> pyfloat" where
  "py_min2 a b = (if flt b a then b else a)"

definition py_max3 :: "pyfloat \<Rightarrow> pyfloat \<Rightarrow> pyfloat \<Rightarrow> pyfloat" where
  "py_max3 a b c = py_max2 (py_max2 a b) c"

definition py_min3 :: "pyfloat \<Rightarrow> pyfloat \<Rightarrow> pyfloat \<Rightarrow> pyfloat" where
  "py_min3 a b c = py_min2 (py_min2 a b) c"

text \<open>
  \<^verbatim>\<open>math.hypot\<close>, \<^verbatim>\<open>math.acos\<close> and \<^verbatim>\<open>math.pi\<close>. The two functions are idealised: the
  model returns the correctly rounded value, while the library may be off by one unit
  in the last place (for \<^verbatim>\<open>hypot\<close> in particular on subnormal results). They agree
  wherever the exact result is a binary64 number, as for \<open>hypot x 0\<close>, for the
  hypotenuse of a scaled 3-4-5 triangle and for \<open>acos 1\<close>.
\<close>

fun hypot :: "pyfloat \<Rightarrow> pyfloat \<Rightarrow> pyfloat" where
  "hypot PInf b = PInf"
| "hypot NInf b = PInf"
| "hypot a PInf = PInf"
| "hypot a NInf = PInf"
| "hypot (Fin x) (Fin y) = binary64_round (sqrt (x * x + y * y))"
| "hypot a b = NaN"

fun acos :: "pyfloat \<Rightarrow> error + pyfloat" where
  "acos NaN = Inr NaN"
| "acos (Fin x) = (if - 1 \<le> x \<and> x \<le> 1 then Inr (binary64_round (arccos x)) else Inl ValueError)"
| "acos a = Inl ValueError"

definition math_pi :: pyfloat where
  "math_pi = Fin (7074237752028440 / 2 ^ 51)"

subsection \<open>Triangle metrics\<close>

record TriangleMetrics =
  area :: pyfloat
  min_angle_deg :: pyfloat
  edge_lengths :: "pyfloat \<times> pyfloat \<times> pyfloat"

record TriangleDiff =
  triangle_index :: nat
  max_vertex_delta :: pyfloat
  max_coord_delta :: pyfloat
  area_a :: pyfloat
  area_b :: pyfloat
  min_angle_a :: pyfloat
  min_angle_b :: pyfloat
  vertices_a :: Triangle
  vertices_b :: Triangle

definition distance :: "Point \<Rightarrow> Point \<Rightarrow> pyfloat" where
  "distance p q = hypot (fsub (fst p) (fst q)) (fsub (snd p) (snd q))"

text \<open>One pass of the loop of \<^verbatim>\<open>_min_internal_angle\<close>, for the sides \<open>a\<close>, \<open>b\<close>, \<open>c\<close>.\<close>

definition internal_angle :: "pyfloat \<Rightarrow> pyfloat \<Rightarrow> pyfloat \<Rightarrow> error + pyfloat" where
  "internal_angle a b c =
     (if feq b (Fin 0) \<or> feq c (Fin 0) then Inr (Fin 0)
      else case fdiv (fsub (fadd (fmul b b) (fmul c c)) (fmul a a)) (fmul (fmul (Fin 2) b) c) of
             Inl e \<Rightarrow> Inl e
           | Inr cos_angle \<Rightarrow> acos (py_max2 (Fin (- 1)) (py_min2 (Fin 1) cos_angle)))"

definition degrees :: "pyfloat \<Rightarrow> error + pyfloat" where
  "degrees angle = fdiv (fmul angle (Fin 180)) math_pi"

definition min_internal_angle :: "pyfloat \<Rightarrow> pyfloat \<Rightarrow> pyfloat \<Rightarrow> error + pyfloat" where
  "min_internal_angle ab bc ca =
     (case internal_angle ab bc ca of Inl e \<Rightarrow> Inl e | Inr r0 \<Rightarrow>
      case internal_angle bc ca ab of Inl e \<Rightarrow> Inl e | Inr r1 \<Rightarrow>
      case internal_angle ca ab bc of Inl e \<Rightarrow> Inl e | Inr r2 \<Rightarrow>
      case degrees r0 of Inl e \<Rightarrow> Inl e | Inr d0 \<Rightarrow>
      case degrees r1 of Inl e \<Rightarrow> Inl e | Inr d1 \<Rightarrow>
      case degrees r2 of Inl e \<Rightarrow> Inl e | Inr d2 \<Rightarrow> Inr (py_min3 d0 d1 d2))"

definition triangle_metrics :: "Triangle \<Rightarrow> error + TriangleMetrics" where
  "triangle_metrics tri =
     (case tri of (a, b, c) \<Rightarrow>
        let ab = distance a b; bc = distance b c; ca = distance c a;
            ar = fmul (Fin (1 / 2))
                   (fabs (fsub (fmul (fsub (fst b) (fst a)) (fsub (snd c) (snd a)))
                               (fmul (fsub (fst c) (fst a)) (fsub (snd b) (snd a)))))
        in case min_internal_angle ab bc ca of
             Inl e \<Rightarrow> Inl e
           | Inr min_angle \<Rightarrow>
               Inr \<lparr>area = ar, min_angle_deg = min_angle, edge_lengths = (ab, bc, ca)\<rparr>)"

subsection \<open>The comparator\<close>

text \<open>The distance that \<^verbatim>\<open>_triangle_delta\<close> computes for one pair of vertices.\<close>

definition vertex_delta :: "Point \<Rightarrow> Point \<Rightarrow> pyfloat" where
  "vertex_delta va vb =
     hypot (fabs (fsub (fst va) (fst vb))) (fabs (fsub (snd va) (snd vb)))"

definition delta_step :: "pyfloat \<times> pyfloat \<Rightarrow> Point \<times> Point \<Rightarrow> pyfloat \<times> pyfloat" where
  "delta_step acc pr =
     (case acc of (max_vertex, max_coord) \<Rightarrow> case pr of (va, vb) \<Rightarrow>
        let dx = fabs (fsub (fst va) (fst vb));
            dy = fabs (fsub (snd va) (snd vb))
        in (py_max2 max_vertex (hypot dx dy), py_max3 max_coord dx dy))"

definition triangle_delta :: "Triangle \<Rightarrow> Triangle \<Rightarrow> pyfloat \<times> pyfloat" where
  "triangle_delta a b =
     (case a of (a0, a1, a2) \<Rightarrow> case b of (b0, b1, b2) \<Rightarrow>
        foldl delta_step (Fin 0, Fin 0) [(a0, b0), (a1, b1), (a2, b2)])"

text \<open>\<^verbatim>\<open>xs[i]\<close> for an index that is not negative, and \<^verbatim>\<open>range(n)\<close>.\<close>

definition py_index :: "'a list \<Rightarrow> nat \<Rightarrow> error + 'a" where
  "py_index xs i = (if i < length xs then Inr (xs ! i) else Inl IndexError)"

definition py_range :: "int \<Rightarrow> nat list" where
  "py_range n = [0..<nat n]"

definition effective_limit :: "PolylineDump \<Rightarrow> PolylineDump \<Rightarrow> int option \<Rightarrow> int" where
  "effective_limit reference candidate max_triangles =
     (case max_triangles of
        Some m \<Rightarrow> m
      | None \<Rightarrow> max (int (length (triangles reference))) (int (length (triangles candidate))))"

definition compare_range :: "PolylineDump \<Rightarrow> PolylineDump \<Rightarrow> int option \<Rightarrow> nat list" where
  "compare_range reference candidate max_triangles =
     py_range (min (effective_limit reference candidate max_triangles)
                 (min (int (length (triangles reference))) (int (length (triangles candidate)))))"

fun compare_loop :: "PolylineDump \<Rightarrow> PolylineDump \<Rightarrow> pyfloat \<Rightarrow> TriangleDiff list \<Rightarrow> nat list
    \<Rightarrow> error + TriangleDiff list" where
  "compare_loop reference candidate tolerance found [] = Inr found"
| "compare_loop reference candidate tolerance found (idx # rest) =
     (case py_index (triangles reference) idx of Inl e \<Rightarrow> Inl e | Inr tri_a \<Rightarrow>
      case py_index (triangles candidate) idx of Inl e \<Rightarrow> Inl e | Inr tri_b \<Rightarrow>
      case triangle_delta tri_a tri_b of (max_delta, max_coord) \<Rightarrow>
        if fle max_delta tolerance then compare_loop reference candidate tolerance found rest
        else
          case triangle_metrics tri_a of Inl e \<Rightarrow> Inl e | Inr metrics_a \<Rightarrow>
          case triangle_metrics tri_b of Inl e \<Rightarrow> Inl e | Inr metrics_b \<Rightarrow>
            compare_loop reference candidate tolerance
              (found @ [\<lparr>triangle_index = idx, max_vertex_delta = max_delta,
                          max_coord_delta = max_coord,
                          area_a = area metrics_a, area_b = area metrics_b,
                          min_angle_a = min_angle_deg metrics_a,
                          min_angle_b = min_angle_deg metrics_b,
                          vertices_a = tri_a, vertices_b = tri_b\<rparr>]) rest)"

definition compare_polylines :: "PolylineDump \<Rightarrow> PolylineDump \<Rightarrow> pyfloat \<Rightarrow> int option
    \<Rightarrow> error + TriangleDiff list" where
  "compare_polylines reference candidate tolerance max_triangles =
     compare_loop reference candidate tolerance []
       (compare_range reference candidate max_triangles)"

text \<open>Two dumps of unequal length, and the diff that their comparison reports.\<close>

definition example_reference :: PolylineDump where
  "example_reference =
     \<lparr>index = 0, point_count = 3, width = Fin 1, layer = lit ''TOP'',
      triangles = [((Fin 0, Fin 0), (Fin 1, Fin 0), (Fin 0, Fin 1)),
                   ((Fin 0, Fin 0), (Fin 0, Fin 0), (Fin 0, Fin 0)),
                   ((Fin 0, Fin 0), (Fin 1, Fin 0), (Fin 1, Fin 1))]\<rparr>"

definition example_candidate :: PolylineDump where
  "example_candidate =
     \<lparr>index = 0, point_count = 3, width = Fin 1, layer = lit ''TOP'',
      triangles = [((Fin 0, Fin 0), (Fin 1, Fin 0), (Fin 0, Fin 1)),
                   ((Fin 1, Fin 0), (Fin 1, Fin 0), (Fin 1, Fin 0))]\<rparr>"

definition example_diff :: TriangleDiff where
  "example_diff =
     \<lparr>triangle_index = 1, max_vertex_delta = Fin 1, max_coord_delta = Fin 1,
      area_a = Fin 0, area_b = Fin 0, min_angle_a = Fin 0, min_angle_b = Fin 0,
      vertices_a = ((Fin 0, Fin 0), (Fin 0, Fin 0), (Fin 0, Fin 0)),
      vertices_b = ((Fin 1, Fin 0), (Fin 1, Fin 0), (Fin 1, Fin 0))\<rparr>"

text \<open>
  Two dumps of one triangle each: the reference triangle has two coincident vertices
  and a third at distance \<open>2 powr -600\<close>; the candidate moves the first vertex by 1.
\<close>

definition tiny_reference :: PolylineDump where
  "tiny_reference =
     \<lparr>index = 0, point_count = 3, width = Fin 1, layer = lit ''TOP'',
      triangles = [((Fin 0, Fin 0), (Fin 0, Fin 0), (Fin (2 powr - 600), Fin 0))]\<rparr>"

definition tiny_candidate :: PolylineDump where
  "tiny_candidate =
     \<lparr>index = 0, point_count = 3, width = Fin 1, layer = lit ''TOP'',
      triangles = [((Fin 0, Fin 1), (Fin 0, Fin 0), (Fin (2 powr - 600), Fin 0))]\<rparr>"

text \<open>A coordinate scale whose square is beyond the largest binary64 number.\<close>

definition huge :: real where
  "huge = 2 powr 600"


section \<open>Properties\<close>

subsection \<open>Splitting and stripping\<close>

lemma split1_Cons:
  "py_split_aux [c] m acc (a # s) =
     (if m \<noteq> Some 0 \<and> a = c then rev acc # py_split_aux [c] (map_option (\<lambda>k. k - 1) m) [] s
      else py_split_aux [c] m (a # acc) s)"
  by simp

lemma split_aux_len: "length (py_split_aux [c] None acc s) = Suc (count_list s c)"
proof (induction s arbitrary: acc)
  case Nil
  show ?case by simp
next
  case (Cons a s)
  show ?case by (simp add: split1_Cons Cons.IH del: py_split_aux.simps)
qed

lemma split1_set: "p \<in> set (py_split_aux [c] m acc s) \<Longrightarrow> set p \<subseteq> set acc \<union> set s"
proof (induction s arbitrary: acc m)
  case Nil
  then show ?case by simp
next
  case (Cons a s)
  show ?case
  proof (cases "m \<noteq> Some 0 \<and> a = c")
    case True
    with Cons.prems have "p = rev acc \<or> p \<in> set (py_split_aux [c] (map_option (\<lambda>k. k - 1) m) [] s)"
      by (simp add: split1_Cons del: py_split_aux.simps)
    then show ?thesis
    proof
      assume "p = rev acc" then show ?thesis by (simp add: subset_iff)
    next
      assume "p \<in> set (py_split_aux [c] (map_option (\<lambda>k. k - 1) m) [] s)"
      from Cons.IH[OF this] show ?thesis by (simp add: subset_iff)
    qed
  next
    case False
    with Cons.prems have "p \<in> set (py_split_aux [c] m (a # acc) s)"
      by (simp add: split1_Cons del: py_split_aux.simps)
    from Cons.IH[OF this] show ?thesis by (simp add: subset_iff)
  qed
qed

lemma split_aux_nosep: "c \<notin> set acc \<Longrightarrow> p \<in> set (py_split_aux [c] None acc s) \<Longrightarrow> c \<notin> set p"
proof (induction s arbitrary: acc)
  case Nil
  then show ?case by simp
next
  case (Cons a s)
  show ?case
  proof (cases "a = c")
    case True
    with Cons.prems(2) have "p = rev acc \<or> p \<in> set (py_split_aux [c] None [] s)"
      by (simp add: split1_Cons del: py_split_aux.simps)
    then show ?thesis
    proof
      assume "p = rev acc" then show ?thesis using Cons.prems(1) by simp
    next
      assume "p \<in> set (py_split_aux [c] None [] s)"
      then show ?thesis using Cons.IH[of "[]"] by simp
    qed
  next
    case False
    with Cons.prems(2) have "p \<in> set (py_split_aux [c] None (a # acc) s)"
      by (simp add: split1_Cons del: py_split_aux.simps)
    then show ?thesis using Cons.IH[of "a # acc"] Cons.prems(1) False by simp
  qed
qed

lemma strip_subset: "set (py_strip s) \<subseteq> set s"
  unfolding py_strip_def by (auto dest!: set_dropWhileD)

subsection \<open>Header lines never yield a layer with a comma\<close>

lemma lit_comma: "lit '','' = [44]" and lit_colon: "lit '':'' = [58]"
  by (simp_all add: lit_def)

lemma count_dropWhile: "\<not> P c \<Longrightarrow> count_list (dropWhile P s) c = count_list s c"
  by (induction s) auto

lemma count_strip: "\<not> py_isspace c \<Longrightarrow> count_list (py_strip s) c = count_list s c"
  by (simp add: py_strip_def count_dropWhile)

lemma header_try_Inr:
  assumes "parse_polyline_header_try B line idx = Inr p"
  shows "\<exists>pp wp lp y x rest.
           map py_strip (py_split (py_strip (drop (length POLYLINE_PREFIX) line)) (lit '','')) = [pp, wp, lp]
           \<and> py_split_max lp (lit '':'') 1 = y # x # rest \<and> layer p = py_strip x"
  using assms unfolding parse_polyline_header_try_def Let_def
  by (auto split: list.splits option.splits)

lemma header_try_parts:
  assumes "length (py_split (py_strip (drop (length POLYLINE_PREFIX) line)) (lit '','')) \<noteq> 3"
  shows "parse_polyline_header_try B line idx = Inl ValueError"
  using assms unfolding parse_polyline_header_try_def Let_def
  by (auto split: list.splits)

lemmas eval_defs =
  parse_polyline_header_def parse_polyline_header_try_def example_builtins_def lit_def
  POLYLINE_PREFIX_def TRIANGLE_PREFIX_def py_strip_def py_isspace_def py_split_def
  py_split_max_def py_split_ws_def header_error_def

text \<open>
  Claim C10. A header line whose layer text contains a comma is rejected with the
  header \<^verbatim>\<open>ParseError\<close>: the payload then has at least three commas, so the split
  yields more than three fields. Hence the layer of a parsed record never
  contains a comma (code point 44).
\<close>

theorem header_layer_has_no_comma:
  "(line = POLYLINE_PREFIX @ a @ [44] @ b @ [44] @ l \<and> 44 \<in> set l
      \<longrightarrow> parse_polyline_header B line idx = Inl (header_error line))
   \<and> (parse_polyline_header B line idx = Inr p \<longrightarrow> 44 \<notin> set (layer p))"
proof (intro conjI impI)
  assume A: "line = POLYLINE_PREFIX @ a @ [44] @ b @ [44] @ l \<and> 44 \<in> set l"
  let ?head = "py_strip (drop (length POLYLINE_PREFIX) line)"
  have "count_list l 44 \<noteq> 0" using A by (simp add: count_list_0_iff)
  then have "0 < count_list l 44" by simp
  then have "3 \<le> count_list (a @ [44] @ b @ [44] @ l) 44" by simp
  moreover have "count_list ?head 44 = count_list (a @ [44] @ b @ [44] @ l) 44"
    using A by (simp add: count_strip py_isspace_def)
  moreover have "length (py_split ?head (lit '','')) = Suc (count_list ?head 44)"
    by (simp add: py_split_def lit_comma split_aux_len del: py_split_aux.simps)
  ultimately have "length (py_split ?head (lit '','')) \<noteq> 3"
    by linarith
  then have "parse_polyline_header_try B line idx = Inl ValueError"
    by (rule header_try_parts)
  then show "parse_polyline_header B line idx = Inl (header_error line)"
    by (simp add: parse_polyline_header_def)
next
  assume "parse_polyline_header B line idx = Inr p"
  then have "parse_polyline_header_try B line idx = Inr p"
    by (simp add: parse_polyline_header_def split: sum.splits error.splits)
  from header_try_Inr[OF this] obtain pp wp lp y x rest where
    parts: "map py_strip (py_split (py_strip (drop (length POLYLINE_PREFIX) line)) (lit '','')) = [pp, wp, lp]"
    and sp: "py_split_max lp (lit '':'') 1 = y # x # rest" and lay: "layer p = py_strip x"
    by (elim exE conjE)
  from parts have "lp \<in> py_strip ` set (py_split (py_strip (drop (length POLYLINE_PREFIX) line)) (lit '',''))"
    by (metis list.set_intros(1,2) set_map)
  then obtain piece where piece: "piece \<in> set (py_split_aux [44] None [] (py_strip (drop (length POLYLINE_PREFIX) line)))"
    and lp: "lp = py_strip piece"
    by (auto simp: py_split_def lit_comma simp del: py_split_aux.simps)
  have "44 \<notin> set piece" using split_aux_nosep[OF _ piece] by simp
  then have "44 \<notin> set lp" using lp strip_subset[of piece] by auto
  moreover have "x \<in> set (py_split_aux [58] (Some 1) [] lp)"
    using sp by (simp add: py_split_max_def lit_colon del: py_split_aux.simps)
  then have "set x \<subseteq> set lp" using split1_set by fastforce
  ultimately have "44 \<notin> set x" by auto
  then show "44 \<notin> set (layer p)" using lay strip_subset[of x] by auto
qed

theorem header_layer_has_no_comma_witness:
  "parse_polyline_header example_builtins (lit ''Polyline: 3 points, width: 0.5, layer: A,B'') 0
     = Inl (header_error (lit ''Polyline: 3 points, width: 0.5, layer: A,B''))
   \<and> parse_polyline_header example_builtins (lit ''Polyline: 3 points, width: 0.5, layer: LAYER:Cut'') 0
     = Inr \<lparr>index = 0, point_count = 3, width = Fin (1/2), layer = lit ''LAYER:Cut'', triangles = []\<rparr>
   \<and> 44 \<notin> set (lit ''LAYER:Cut'')"
proof -
  have h1: "lit ''Polyline: 3 points, width: 0.5, layer: A,B''
              = POLYLINE_PREFIX @ lit '' 3 points'' @ [44] @ lit '' width: 0.5'' @ [44] @ lit '' layer: A,B''
            \<and> 44 \<in> set (lit '' layer: A,B'')"
    by (simp add: lit_def POLYLINE_PREFIX_def)
  have h2: "parse_polyline_header example_builtins (lit ''Polyline: 3 points, width: 0.5, layer: LAYER:Cut'') 0
     = Inr \<lparr>index = 0, point_count = 3, width = Fin (1/2), layer = lit ''LAYER:Cut'', triangles = []\<rparr>"
    by (simp add: eval_defs)
  have c1: "parse_polyline_header example_builtins (lit ''Polyline: 3 points, width: 0.5, layer: A,B'') 0
     = Inl (header_error (lit ''Polyline: 3 points, width: 0.5, layer: A,B''))"
    using header_layer_has_no_comma[of "lit ''Polyline: 3 points, width: 0.5, layer: A,B''"
        "lit '' 3 points''" "lit '' width: 0.5''" "lit '' layer: A,B''" example_builtins 0] h1
    by blast
  have c2: "44 \<notin> set (lit ''LAYER:Cut'')"
    using header_layer_has_no_comma[of "lit ''Polyline: 3 points, width: 0.5, layer: LAYER:Cut''"
        _ _ _ example_builtins 0
        "\<lparr>index = 0, point_count = 3, width = Fin (1/2), layer = lit ''LAYER:Cut'', triangles = []\<rparr>"] h2
    by simp
  show ?thesis using c1 h2 c2 by simp
qed

subsection \<open>Triangle lines\<close>

lemma parse_vertex_numeric: "(\<exists>v. parse_vertex B c = Inr v) \<longleftrightarrow> numeric_vertex B c"
  unfolding parse_vertex_def numeric_vertex_def
  by (auto split: list.splits option.splits)

lemma parse_vertices_all: "(\<exists>vs. parse_vertices B cs = Inr vs) \<longleftrightarrow> (\<forall>c\<in>set cs. numeric_vertex B c)"
proof (induction cs)
  case Nil
  show ?case by simp
next
  case (Cons c cs)
  show ?case
    using Cons.IH parse_vertex_numeric[of B c]
    by (auto split: sum.splits)
qed

lemma parse_vertices_length: "parse_vertices B cs = Inr vs \<Longrightarrow> length vs = length cs"
  by (induction cs arbitrary: vs) (auto split: sum.splits)

lemma triangle_try_iff:
  "(\<exists>t. parse_triangle_line_try B line = Inr t) \<longleftrightarrow>
     (\<exists>pre payload. py_split_max line (lit '':'') 1 = [pre, payload]
        \<and> length (triples_of payload) = 3
        \<and> (\<forall>c\<in>set (triples_of payload). numeric_vertex B c))"
proof
  assume "\<exists>t. parse_triangle_line_try B line = Inr t"
  then obtain t where t: "parse_triangle_line_try B line = Inr t" ..
  then obtain pre payload where sp: "py_split_max line (lit '':'') 1 = [pre, payload]"
    unfolding parse_triangle_line_try_def by (auto split: list.splits)
  with t obtain vs where vs: "parse_vertices B (triples_of payload) = Inr vs" and l3: "length vs = 3"
    unfolding parse_triangle_line_try_def by (auto split: list.splits sum.splits)
  have "length (triples_of payload) = 3" using parse_vertices_length[OF vs] l3 by simp
  moreover have "\<forall>c\<in>set (triples_of payload). numeric_vertex B c"
    using parse_vertices_all[of B "triples_of payload"] vs by auto
  ultimately show "\<exists>pre payload. py_split_max line (lit '':'') 1 = [pre, payload]
        \<and> length (triples_of payload) = 3
        \<and> (\<forall>c\<in>set (triples_of payload). numeric_vertex B c)"
    using sp by auto
next
  assume "\<exists>pre payload. py_split_max line (lit '':'') 1 = [pre, payload]
        \<and> length (triples_of payload) = 3
        \<and> (\<forall>c\<in>set (triples_of payload). numeric_vertex B c)"
  then obtain pre payload where sp: "py_split_max line (lit '':'') 1 = [pre, payload]"
    and l3: "length (triples_of payload) = 3"
    and nv: "\<forall>c\<in>set (triples_of payload). numeric_vertex B c" by auto
  from nv obtain vs where vs: "parse_vertices B (triples_of payload) = Inr vs"
    using parse_vertices_all[of B "triples_of payload"] by auto
  have "length vs = 3" using parse_vertices_length[OF vs] l3 by simp
  then obtain v0 v1 v2 where "vs = [v0, v1, v2]"
    by (auto simp: length_Suc_conv numeral_3_eq_3)
  then show "\<exists>t. parse_triangle_line_try B line = Inr t"
    unfolding parse_triangle_line_try_def using sp vs by simp
qed

lemmas eval_tri_defs =
  parse_triangle_line_def parse_triangle_line_try_def triples_of_def parse_vertex_def
  vertex_fields_def numeric_vertex_def startswith_def endswith_def triangle_error_def

text \<open>
  Claim C7. A triangle line parses exactly when the text after its first colon
  splits on \<^verbatim>\<open>],\<close> into three chunks that are all numeric; in every other case
  (another number of chunks, a chunk without two fields, a field that \<^verbatim>\<open>float\<close>
  rejects, no colon at all) the result is the \<^verbatim>\<open>ParseError\<close> whose message quotes
  the line.
\<close>

theorem triangle_line_needs_three_numeric_vertices:
  "((\<exists>t. parse_triangle_line B line = Inr t) \<longleftrightarrow>
      (\<exists>pre payload. py_split_max line (lit '':'') 1 = [pre, payload]
         \<and> length (triples_of payload) = 3
         \<and> (\<forall>c\<in>set (triples_of payload). numeric_vertex B c)))
   \<and> ((\<nexists>t. parse_triangle_line B line = Inr t) \<longrightarrow>
        parse_triangle_line B line
          = Inl (ParseError (lit ''Unable to parse triangle line: '' @ [39] @ line @ [39])))"
proof -
  have a: "(\<exists>t. parse_triangle_line B line = Inr t) \<longleftrightarrow> (\<exists>t. parse_triangle_line_try B line = Inr t)"
    unfolding parse_triangle_line_def by (cases "parse_triangle_line_try B line") auto
  have A: "(\<exists>t. parse_triangle_line B line = Inr t) \<longleftrightarrow>
      (\<exists>pre payload. py_split_max line (lit '':'') 1 = [pre, payload]
         \<and> length (triples_of payload) = 3
         \<and> (\<forall>c\<in>set (triples_of payload). numeric_vertex B c))"
    using a triangle_try_iff[of B line] by (rule trans)
  have B: "(\<nexists>t. parse_triangle_line B line = Inr t) \<longrightarrow>
        parse_triangle_line B line
          = Inl (ParseError (lit ''Unable to parse triangle line: '' @ [39] @ line @ [39]))"
    unfolding parse_triangle_line_def triangle_error_def
    by (cases "parse_triangle_line_try B line") auto
  show ?thesis by (rule conjI[OF A B])
qed

theorem triangle_line_needs_three_numeric_vertices_witness:
  "parse_triangle_line example_builtins (lit ''Triangle 0: [0, 0], [1, 0], [0, 1]'')
     = Inr ((Fin 0, Fin 0), (Fin 1, Fin 0), (Fin 0, Fin 1))
   \<and> parse_triangle_line example_builtins (lit ''Triangle 0: [0, 0], [1, 0]'')
     = Inl (ParseError (lit ''Unable to parse triangle line: '' @ [39]
                          @ lit ''Triangle 0: [0, 0], [1, 0]'' @ [39]))"
proof -
  have e1: "parse_triangle_line example_builtins (lit ''Triangle 0: [0, 0], [1, 0], [0, 1]'')
       = Inr ((Fin 0, Fin 0), (Fin 1, Fin 0), (Fin 0, Fin 1))"
    by (simp add: eval_defs eval_tri_defs)
  have e2: "py_split_max (lit ''Triangle 0: [0, 0], [1, 0]'') (lit '':'') 1
              = [lit ''Triangle 0'', lit '' [0, 0], [1, 0]'']
            \<and> length (triples_of (lit '' [0, 0], [1, 0]'')) = 2"
    by (simp add: eval_defs eval_tri_defs)
  have "\<not> (\<exists>pre payload.
            py_split_max (lit ''Triangle 0: [0, 0], [1, 0]'') (lit '':'') 1 = [pre, payload]
            \<and> length (triples_of payload) = 3
            \<and> (\<forall>c\<in>set (triples_of payload). numeric_vertex example_builtins c))"
    using e2 by auto
  then have "\<nexists>t. parse_triangle_line example_builtins (lit ''Triangle 0: [0, 0], [1, 0]'') = Inr t"
    using triangle_line_needs_three_numeric_vertices
            [of example_builtins "lit ''Triangle 0: [0, 0], [1, 0]''"]
    by blast
  then have "parse_triangle_line example_builtins (lit ''Triangle 0: [0, 0], [1, 0]'')
     = Inl (ParseError (lit ''Unable to parse triangle line: '' @ [39]
                          @ lit ''Triangle 0: [0, 0], [1, 0]'' @ [39]))"
    using triangle_line_needs_three_numeric_vertices
            [of example_builtins "lit ''Triangle 0: [0, 0], [1, 0]''"]
    by blast
  with e1 show ?thesis by (rule conjI)
qed

subsection \<open>The record that is open at the end of the input\<close>

lemma parse_lines_append:
  "parse_lines B path st (xs @ ys) =
     (case parse_lines B path st xs of Inl e \<Rightarrow> Inl e | Inr st' \<Rightarrow> parse_lines B path st' ys)"
  by (induction xs arbitrary: st) (simp_all add: Let_def split: sum.splits option.splits)

lemma header_not_blank: "startswith l POLYLINE_PREFIX \<Longrightarrow> l \<noteq> []"
  by (auto simp: startswith_def POLYLINE_PREFIX_def lit_def)

lemma header_triangles_empty:
  "parse_polyline_header B line idx = Inr p \<Longrightarrow> triangles p = [] \<and> index p = idx"
  unfolding parse_polyline_header_def parse_polyline_header_try_def Let_def
  by (auto split: sum.splits error.splits list.splits option.splits)

lemma parse_lines_no_header:
  assumes "\<forall>l\<in>set rest. \<not> is_header l"
    and "parse_lines B path (ps, Some cur) rest = Inr st'"
  shows "\<exists>ts. map (parse_triangle_line B) (triangle_lines rest) = map Inr ts
            \<and> st' = (ps, Some (cur\<lparr>triangles := triangles cur @ ts\<rparr>))"
  using assms
proof (induction rest arbitrary: cur)
  case Nil
  then show ?case by (simp add: triangle_lines_def)
next
  case (Cons l rest)
  let ?line = "py_strip l"
  have nh: "\<not> startswith ?line POLYLINE_PREFIX" using Cons.prems(1) by (simp add: is_header_def)
  have rest_nh: "\<forall>l\<in>set rest. \<not> is_header l" using Cons.prems(1) by simp
  show ?case
  proof (cases "?line \<noteq> [] \<and> startswith ?line TRIANGLE_PREFIX")
    case False
    then have step: "parse_lines B path (ps, Some cur) (l # rest) = parse_lines B path (ps, Some cur) rest"
      using nh by (auto simp: Let_def)
    have tl: "triangle_lines (l # rest) = triangle_lines rest"
      using False by (auto simp: triangle_lines_def)
    show ?thesis using Cons.IH[OF rest_nh, of cur] Cons.prems(2) step tl by simp
  next
    case True
    then obtain t where t: "parse_triangle_line B ?line = Inr t"
      and step: "parse_lines B path (ps, Some (cur\<lparr>triangles := triangles cur @ [t]\<rparr>)) rest = Inr st'"
      using nh Cons.prems(2) by (auto simp: Let_def split: sum.splits)
    have tl: "triangle_lines (l # rest) = ?line # triangle_lines rest"
      using True nh by (auto simp: triangle_lines_def)
    from Cons.IH[OF rest_nh step] obtain ts where
      ts: "map (parse_triangle_line B) (triangle_lines rest) = map Inr ts"
      and st: "st' = (ps, Some (cur\<lparr>triangles := triangles cur @ [t]\<rparr>\<lparr>triangles := triangles (cur\<lparr>triangles := triangles cur @ [t]\<rparr>) @ ts\<rparr>))"
      by blast
    have "map (parse_triangle_line B) (triangle_lines (l # rest)) = map Inr (t # ts)"
      using tl t ts by simp
    moreover have "st' = (ps, Some (cur\<lparr>triangles := triangles cur @ (t # ts)\<rparr>))"
      using st by simp
    ultimately show ?thesis by blast
  qed
qed

text \<open>
  Claim C8. When the loop ends with an open record, \<^verbatim>\<open>parse_log\<close> appends it to the
  result. So for a dump whose last header line \<open>h\<close> is followed only by lines that
  are not headers, a successful parse returns a non-empty list whose last record is
  the one parsed from \<open>h\<close>, with the triangles of all triangle lines after \<open>h\<close>, in
  order.
\<close>

theorem final_polyline_is_kept:
  "(parse_lines B path ([], None) lines = Inr (ps, Some cur)
      \<longrightarrow> parse_decoded B path lines = Inr (ps @ [cur]))
   \<and> (parse_decoded B path (pre @ h # rest) = Inr out \<and> is_header h
        \<and> (\<forall>l\<in>set rest. \<not> is_header l)
      \<longrightarrow> (\<exists>p ts. parse_polyline_header B (py_strip h) (length out - 1) = Inr p
             \<and> map (parse_triangle_line B) (triangle_lines rest) = map Inr ts
             \<and> out \<noteq> [] \<and> last out = p\<lparr>triangles := ts\<rparr>))"
proof (intro conjI impI)
  assume "parse_lines B path ([], None) lines = Inr (ps, Some cur)"
  then show "parse_decoded B path lines = Inr (ps @ [cur])"
    by (simp add: parse_decoded_def finish_current_def)
next
  assume A: "parse_decoded B path (pre @ h # rest) = Inr out \<and> is_header h
        \<and> (\<forall>l\<in>set rest. \<not> is_header l)"
  then obtain stf where stf: "parse_lines B path ([], None) (pre @ h # rest) = Inr stf"
    and out: "out = fst (finish_current stf)"
    by (auto simp: parse_decoded_def split: sum.splits)
  from stf obtain st1 where st1: "parse_lines B path ([], None) pre = Inr st1"
    and hrest: "parse_lines B path st1 (h # rest) = Inr stf"
    by (auto simp: parse_lines_append split: sum.splits)
  let ?line = "py_strip h"
  let ?ps = "fst (finish_current st1)"
  have hd: "startswith ?line POLYLINE_PREFIX" using A by (simp add: is_header_def)
  then have nb: "?line \<noteq> []" by (rule header_not_blank)
  from hrest hd nb obtain p where p: "parse_polyline_header B ?line (length ?ps) = Inr p"
    and rest: "parse_lines B path (?ps, Some p) rest = Inr stf"
    by (auto simp: Let_def split: sum.splits)
  from A have nh: "\<forall>l\<in>set rest. \<not> is_header l" by simp
  from parse_lines_no_header[OF nh rest] obtain ts where
    ts: "map (parse_triangle_line B) (triangle_lines rest) = map Inr ts"
    and stf_eq: "stf = (?ps, Some (p\<lparr>triangles := triangles p @ ts\<rparr>))"
    by blast
  have tp: "triangles p = []" using header_triangles_empty[OF p] by simp
  have out_eq: "out = ?ps @ [p\<lparr>triangles := ts\<rparr>]"
    using out stf_eq tp by (simp add: finish_current_def)
  then have "length out - 1 = length ?ps" and "out \<noteq> []" and "last out = p\<lparr>triangles := ts\<rparr>"
    by simp_all
  then show "\<exists>p ts. parse_polyline_header B (py_strip h) (length out - 1) = Inr p
             \<and> map (parse_triangle_line B) (triangle_lines rest) = map Inr ts
             \<and> out \<noteq> [] \<and> last out = p\<lparr>triangles := ts\<rparr>"
    using p ts by auto
qed

theorem final_polyline_is_kept_witness:
  "parse_decoded example_builtins (lit ''a.txt'')
     [lit ''Polyline: 3 points, width: 0.5, layer: LAYER:Cut'',
      lit ''Triangle 0: [0, 0], [1, 0], [0, 1]'']
     = Inr [\<lparr>index = 0, point_count = 3, width = Fin (1/2), layer = lit ''LAYER:Cut'',
         triangles = [((Fin 0, Fin 0), (Fin 1, Fin 0), (Fin 0, Fin 1))]\<rparr>]
   \<and> is_header (lit ''Polyline: 3 points, width: 0.5, layer: LAYER:Cut'')
   \<and> \<not> is_header (lit ''Triangle 0: [0, 0], [1, 0], [0, 1]'')
   \<and> (\<exists>p ts. parse_polyline_header example_builtins
                 (py_strip (lit ''Polyline: 3 points, width: 0.5, layer: LAYER:Cut'')) 0 = Inr p
          \<and> last [\<lparr>index = 0, point_count = 3, width = Fin (1/2), layer = lit ''LAYER:Cut'',
         triangles = [((Fin 0, Fin 0), (Fin 1, Fin 0), (Fin 0, Fin 1))]\<rparr>]
              = p\<lparr>triangles := ts\<rparr>)"
proof -
  let ?H = "lit ''Polyline: 3 points, width: 0.5, layer: LAYER:Cut''"
  let ?T = "lit ''Triangle 0: [0, 0], [1, 0], [0, 1]''"
  let ?R = "\<lparr>index = 0, point_count = 3, width = Fin (1/2), layer = lit ''LAYER:Cut'',
         triangles = [((Fin 0, Fin 0), (Fin 1, Fin 0), (Fin 0, Fin 1))]\<rparr>"
  have h1: "parse_lines example_builtins (lit ''a.txt'') ([], None) [?H, ?T] = Inr ([], Some ?R)"
    by (simp add: eval_defs eval_tri_defs Let_def finish_current_def)
  have d: "parse_decoded example_builtins (lit ''a.txt'') [?H, ?T] = Inr [?R]"
    using final_polyline_is_kept[where B = example_builtins and path = "lit ''a.txt''"
        and lines = "[?H, ?T]" and ps = "[]" and cur = ?R] h1
    by simp
  have h2: "is_header ?H \<and> \<not> is_header ?T"
    by (simp add: is_header_def eval_defs eval_tri_defs)
  have "\<exists>p ts. parse_polyline_header example_builtins (py_strip ?H) (length [?R] - 1) = Inr p
          \<and> map (parse_triangle_line example_builtins) (triangle_lines [?T]) = map Inr ts
          \<and> [?R] \<noteq> [] \<and> last [?R] = p\<lparr>triangles := ts\<rparr>"
    using final_polyline_is_kept[where B = example_builtins and path = "lit ''a.txt''"
        and pre = "[]" and h = ?H and rest = "[?T]" and out = "[?R]"] d h2
    by simp
  then have "\<exists>p ts. parse_polyline_header example_builtins (py_strip ?H) 0 = Inr p
          \<and> last [?R] = p\<lparr>triangles := ts\<rparr>"
    by auto
  with d h2 show ?thesis by blast
qed

subsection \<open>Decoding\<close>

lemma try_decodings_first:
  "try_decodings es raw = Some text \<longleftrightarrow>
     (\<exists>pre e post. es = pre @ e # post \<and> (\<forall>d\<in>set pre. decode d raw = None) \<and> decode e raw = Some text)"
proof (induction es)
  case Nil
  show ?case by simp
next
  case (Cons a es)
  show ?case
  proof (cases "decode a raw")
    case None
    have "(\<exists>pre e post. a # es = pre @ e # post \<and> (\<forall>d\<in>set pre. decode d raw = None) \<and> decode e raw = Some text)
       \<longleftrightarrow> (\<exists>pre e post. es = pre @ e # post \<and> (\<forall>d\<in>set pre. decode d raw = None) \<and> decode e raw = Some text)"
    proof
      assume "\<exists>pre e post. a # es = pre @ e # post \<and> (\<forall>d\<in>set pre. decode d raw = None) \<and> decode e raw = Some text"
      then obtain pre e post where h: "a # es = pre @ e # post" "\<forall>d\<in>set pre. decode d raw = None" "decode e raw = Some text" by blast
      show "\<exists>pre e post. es = pre @ e # post \<and> (\<forall>d\<in>set pre. decode d raw = None) \<and> decode e raw = Some text"
      proof (cases pre)
        case Nil
        with h None show ?thesis by simp
      next
        case (Cons x xs)
        with h have "es = xs @ e # post" "\<forall>d\<in>set xs. decode d raw = None" by simp_all
        with h(3) show ?thesis by blast
      qed
    next
      assume "\<exists>pre e post. es = pre @ e # post \<and> (\<forall>d\<in>set pre. decode d raw = None) \<and> decode e raw = Some text"
      then obtain pre e post where h: "es = pre @ e # post" "\<forall>d\<in>set pre. decode d raw = None" "decode e raw = Some text" by blast
      then have "a # es = (a # pre) @ e # post" "\<forall>d\<in>set (a # pre). decode d raw = None"
        using None by simp_all
      with h(3) show "\<exists>pre e post. a # es = pre @ e # post \<and> (\<forall>d\<in>set pre. decode d raw = None) \<and> decode e raw = Some text"
        by blast
    qed
    with None Cons.IH show ?thesis by simp
  next
    case (Some t)
    have "(\<exists>pre e post. a # es = pre @ e # post \<and> (\<forall>d\<in>set pre. decode d raw = None) \<and> decode e raw = Some text)
       \<longleftrightarrow> t = text"
    proof
      assume "\<exists>pre e post. a # es = pre @ e # post \<and> (\<forall>d\<in>set pre. decode d raw = None) \<and> decode e raw = Some text"
      then obtain pre e post where h: "a # es = pre @ e # post" "\<forall>d\<in>set pre. decode d raw = None" "decode e raw = Some text" by blast
      show "t = text"
      proof (cases pre)
        case Nil
        with h Some show ?thesis by simp
      next
        case (Cons x xs)
        with h Some show ?thesis by simp
      qed
    next
      assume "t = text"
      then have "a # es = [] @ a # es" "\<forall>d\<in>set []. decode d raw = None" "decode a raw = Some text"
        using Some by simp_all
      then show "\<exists>pre e post. a # es = pre @ e # post \<and> (\<forall>d\<in>set pre. decode d raw = None) \<and> decode e raw = Some text"
        by blast
    qed
    with Some show ?thesis by simp
  qed
qed

lemma try_decodings_none:
  "try_decodings es raw = None \<longleftrightarrow> (\<forall>e\<in>set es. decode e raw = None)"
  by (induction es) (auto split: option.splits)

lemma utf8_rejects_FF: "decode_utf8 (0xFF # bs) = None" and utf8_rejects_FE: "decode_utf8 (0xFE # bs) = None"
  by simp_all

lemma utf8_bom: "decode_utf8 (0xEF # 0xBB # 0xBF # r) = map_option ((#) 65279) (decode_utf8 r)"
  by (simp add: second_ok_def cont_def)

lemma utf8_sig_is_shadowed: "decode_utf8_sig raw = Some text \<Longrightarrow> decode_utf8 raw \<noteq> None"
proof (cases "take 3 raw = [0xEF, 0xBB, 0xBF]")
  case True
  assume a: "decode_utf8_sig raw = Some text"
  from True obtain r where r: "raw = 0xEF # 0xBB # 0xBF # r"
    by (metis append_take_drop_id append_Cons append_Nil)
  with a have "decode_utf8 r = Some text" by (simp add: decode_utf8_sig_def)
  then show ?thesis unfolding r utf8_bom by simp
next
  case False
  assume "decode_utf8_sig raw = Some text"
  with False show ?thesis by (simp add: decode_utf8_sig_def)
qed

text \<open>
  Claim C5, as stated, fails: the two bytes \<open>41 00\<close> are the UTF-16 (little-endian)
  encoding of the one-letter text \<open>A\<close>, and they are also valid UTF-8, so the first
  encoding of the list accepts them and the result is the line \<open>A\<close> followed by
  U+0000.
\<close>

theorem utf16_buffer_read_as_utf8:
  "decode UTF16 [0x41, 0x00] = Some [65]
   \<and> decode UTF16_LE [0x41, 0x00] = Some [65]
   \<and> iter_lines (lit ''a.txt'') [0x41, 0x00] = Inr [[65, 0]]"
  by (simp add: iter_lines_def encodings_def splitlines_def is_linebreak_def
      decode_utf16_def decode_utf16_le_def)

text \<open>
  Claim C5, amended. \<^verbatim>\<open>_iter_lines\<close> returns the lines of the text decoded under the
  first encoding of the list UTF-8, UTF-8 with signature, UTF-16, UTF-16
  little-endian that decodes the whole buffer; and a buffer that starts with a UTF-16
  byte-order mark (\<open>FF FE\<close> or \<open>FE FF\<close>) is never decoded as UTF-8, with or without
  signature.
\<close>

theorem first_decoding_wins:
  "(iter_lines path raw = Inr ls \<longleftrightarrow>
      (\<exists>pre e post text. encodings = pre @ e # post \<and> (\<forall>d\<in>set pre. decode d raw = None)
          \<and> decode e raw = Some text \<and> ls = splitlines text))
   \<and> (take 2 raw = [0xFF, 0xFE] \<or> take 2 raw = [0xFE, 0xFF]
        \<longrightarrow> decode UTF8 raw = None \<and> decode UTF8_SIG raw = None)"
proof (rule conjI)
  show "iter_lines path raw = Inr ls \<longleftrightarrow>
      (\<exists>pre e post text. encodings = pre @ e # post \<and> (\<forall>d\<in>set pre. decode d raw = None)
          \<and> decode e raw = Some text \<and> ls = splitlines text)"
  proof
    assume "iter_lines path raw = Inr ls"
    then obtain decoded where "try_decodings encodings raw = Some decoded" and "ls = splitlines decoded"
      by (auto simp: iter_lines_def split: option.splits)
    then show "\<exists>pre e post text. encodings = pre @ e # post \<and> (\<forall>d\<in>set pre. decode d raw = None)
          \<and> decode e raw = Some text \<and> ls = splitlines text"
      using try_decodings_first[of encodings raw decoded] by blast
  next
    assume "\<exists>pre e post text. encodings = pre @ e # post \<and> (\<forall>d\<in>set pre. decode d raw = None)
          \<and> decode e raw = Some text \<and> ls = splitlines text"
    then obtain decoded where "try_decodings encodings raw = Some decoded" and "ls = splitlines decoded"
      using try_decodings_first[of encodings raw] by blast
    then show "iter_lines path raw = Inr ls" by (simp add: iter_lines_def)
  qed
next
  show "take 2 raw = [0xFF, 0xFE] \<or> take 2 raw = [0xFE, 0xFF]
        \<longrightarrow> decode UTF8 raw = None \<and> decode UTF8_SIG raw = None"
  proof (rule impI)
    assume "take 2 raw = [0xFF, 0xFE] \<or> take 2 raw = [0xFE, 0xFF]"
    then obtain r where "raw = 0xFF # 0xFE # r \<or> raw = 0xFE # 0xFF # r"
      by (metis append_take_drop_id append_Cons append_Nil)
    then show "decode UTF8 raw = None \<and> decode UTF8_SIG raw = None"
      by (auto simp: decode_utf8_sig_def)
  qed
qed

theorem first_decoding_wins_witness:
  "iter_lines (lit ''a.txt'') [0xFF, 0xFE, 0x41, 0x00] = Inr [[65]]
   \<and> decode UTF8 [0xFF, 0xFE, 0x41, 0x00] = None
   \<and> decode UTF8_SIG [0xFF, 0xFE, 0x41, 0x00] = None
   \<and> decode UTF16 [0xFF, 0xFE, 0x41, 0x00] = Some [65]"
proof -
  have bom: "take 2 [0xFF, 0xFE, 0x41, 0x00 :: 8 word] = [0xFF, 0xFE]" by simp
  have n: "decode UTF8 [0xFF, 0xFE, 0x41, 0x00] = None \<and> decode UTF8_SIG [0xFF, 0xFE, 0x41, 0x00] = None"
    using first_decoding_wins[where raw = "[0xFF, 0xFE, 0x41, 0x00]"] bom by blast
  have u: "decode UTF16 [0xFF, 0xFE, 0x41, 0x00] = Some [65]"
    by (simp add: decode_utf16_def decode_utf16_le_def)
  have e: "encodings = [UTF8, UTF8_SIG] @ UTF16 # [UTF16_LE]" by (simp add: encodings_def)
  have s: "[[65]] = splitlines [65]" by (simp add: splitlines_def is_linebreak_def)
  have "\<exists>pre e post text. encodings = pre @ e # post
          \<and> (\<forall>d\<in>set pre. decode d [0xFF, 0xFE, 0x41, 0x00] = None)
          \<and> decode e [0xFF, 0xFE, 0x41, 0x00] = Some text \<and> [[65]] = splitlines text"
    using n u e s by (intro exI[of _ "[UTF8, UTF8_SIG]"] exI[of _ UTF16] exI[of _ "[UTF16_LE]"] exI[of _ "[65]"]) simp
  then have "iter_lines (lit ''a.txt'') [0xFF, 0xFE, 0x41, 0x00] = Inr [[65]]"
    using first_decoding_wins[where raw = "[0xFF, 0xFE, 0x41, 0x00]" and path = "lit ''a.txt''"
        and ls = "[[65]]"] by blast
  with n u show ?thesis by blast
qed

text \<open>
  Claim C6, as stated, fails: the program has one exception class, \<^verbatim>\<open>ParseError\<close>,
  and \<^verbatim>\<open>_iter_lines\<close> raises it when no encoding decodes the buffer. The single
  byte \<open>FF\<close> is rejected by all four encodings.
\<close>

theorem undecodable_buffer_raises_ParseError:
  "decode UTF8 [0xFF] = None \<and> decode UTF8_SIG [0xFF] = None
   \<and> decode UTF16 [0xFF] = None \<and> decode UTF16_LE [0xFF] = None
   \<and> iter_lines (lit ''a.txt'') [0xFF]
       = Inl (ParseError (lit ''Unable to decode a.txt as UTF-8/UTF-16''))"
  by (simp add: iter_lines_def encodings_def decode_error_def lit_def
      decode_utf8_sig_def decode_utf16_def decode_utf16_le_def)

text \<open>
  Claim C6, amended. A buffer that none of the four encodings decodes makes
  \<^verbatim>\<open>_iter_lines\<close> fail with a \<^verbatim>\<open>ParseError\<close> whose message contains the path; and this
  is the only way in which \<^verbatim>\<open>_iter_lines\<close> fails.
\<close>

theorem undecodable_buffer_error:
  "((\<forall>e\<in>set encodings. decode e raw = None) \<longrightarrow>
      iter_lines path raw
        = Inl (ParseError (lit ''Unable to decode '' @ path @ lit '' as UTF-8/UTF-16'')))
   \<and> (iter_lines path raw = Inl err \<longrightarrow> (\<forall>e\<in>set encodings. decode e raw = None))"
proof (intro conjI impI)
  assume "\<forall>e\<in>set encodings. decode e raw = None"
  then have "try_decodings encodings raw = None" by (simp only: try_decodings_none)
  then show "iter_lines path raw
        = Inl (ParseError (lit ''Unable to decode '' @ path @ lit '' as UTF-8/UTF-16''))"
    by (simp add: iter_lines_def decode_error_def)
next
  assume "iter_lines path raw = Inl err"
  then have "try_decodings encodings raw = None"
    by (simp add: iter_lines_def split: option.splits)
  then show "\<forall>e\<in>set encodings. decode e raw = None" by (simp only: try_decodings_none)
qed

theorem undecodable_buffer_error_witness:
  "decode UTF8 [0xC0, 0x41, 0x00] = None
   \<and> decode UTF8_SIG [0xC0, 0x41, 0x00] = None
   \<and> decode UTF16 [0xC0, 0x41, 0x00] = None
   \<and> decode UTF16_LE [0xC0, 0x41, 0x00] = None
   \<and> iter_lines (lit ''b.txt'') [0xC0, 0x41, 0x00]
       = Inl (ParseError (lit ''Unable to decode '' @ lit ''b.txt'' @ lit '' as UTF-8/UTF-16''))"
proof -
  have d: "decode UTF8 [0xC0, 0x41, 0x00] = None \<and> decode UTF8_SIG [0xC0, 0x41, 0x00] = None
      \<and> decode UTF16 [0xC0, 0x41, 0x00] = None \<and> decode UTF16_LE [0xC0, 0x41, 0x00] = None"
    by (simp add: decode_utf8_sig_def decode_utf16_def decode_utf16_le_def)
  then have h: "\<forall>e\<in>set encodings. decode e [0xC0, 0x41, 0x00] = None"
    by (simp add: encodings_def)
  have "iter_lines (lit ''b.txt'') [0xC0, 0x41, 0x00]
       = Inl (ParseError (lit ''Unable to decode '' @ lit ''b.txt'' @ lit '' as UTF-8/UTF-16''))"
    using h undecodable_buffer_error[where raw = "[0xC0, 0x41, 0x00]" and path = "lit ''b.txt''"]
    by blast
  with d show ?thesis by blast
qed

subsection \<open>Rounding of powers of two\<close>

lemma round_half_even_int: "round_half_even (of_int n) = n"
  by (simp add: round_half_even_def Let_def)

lemma round_half_even_neg_int: "round_half_even (- of_int n) = - n"
  using round_half_even_int[of "- n"] by simp

lemma pow2_quot:
  fixes k e :: int
  assumes "e \<le> k"
  shows "(2::real) powr of_int k / 2 powr of_int e = of_int (2 ^ nat (k - e))"
proof -
  have "(2::real) powr of_int k / 2 powr of_int e = 2 powr (of_int k - of_int e)"
    by (simp add: powr_diff)
  also have "of_int k - of_int e = (real (nat (k - e)))" using assms by simp
  also have "(2::real) powr real (nat (k - e)) = 2 ^ nat (k - e)"
    by (simp add: powr_realpow)
  finally show ?thesis by simp
qed

lemma pow2_lt_max:
  fixes k :: int
  assumes "k \<le> 1023"
  shows "(2::real) powr of_int k < 2 ^ 1024"
proof -
  have "(2::real) powr of_int k < 2 powr (of_int (1024::int))"
    using assms by (intro powr_less_mono) auto
  also have "\<dots> = 2 ^ 1024" 
    using powr_realpow[of "2::real" 1024] by simp
  finally show ?thesis .
qed

lemma binary64_exponent_pow2:
  fixes k :: int
  shows "\<lfloor>log 2 \<bar>2 powr of_int k\<bar>\<rfloor> = k"
  by simp

lemma binary64_round_pow2:
  fixes k :: int
  assumes "- 1074 \<le> k" "k \<le> 1023"
  shows "binary64_round (2 powr of_int k) = Fin (2 powr of_int k)"
proof -
  define e where "e = max (k - 52) (- 1074)"
  have ek: "e \<le> k" using assms by (simp add: e_def)
  have q: "(2::real) powr of_int k / 2 powr of_int e = of_int (2 ^ nat (k - e))"
    by (rule pow2_quot[OF ek])
  have r: "of_int (round_half_even (2 powr of_int k / 2 powr of_int e)) * 2 powr of_int e
      = (2::real) powr of_int k"
    unfolding q round_half_even_int using q by (simp add: field_simps)
  have nz: "(2::real) powr of_int k \<noteq> 0" by simp
  have lt: "\<not> 2 ^ 1024 \<le> \<bar>(2::real) powr of_int k\<bar>"
    using pow2_lt_max[OF assms(2)] by simp
  show ?thesis
    unfolding binary64_round_def Let_def binary64_exponent_pow2 e_def[symmetric] r
    using nz lt by simp
qed

lemma binary64_round_neg_pow2:
  fixes k :: int
  assumes "- 1074 \<le> k" "k \<le> 1023"
  shows "binary64_round (- (2 powr of_int k)) = Fin (- (2 powr of_int k))"
proof -
  define e where "e = max (k - 52) (- 1074)"
  have ek: "e \<le> k" using assms by (simp add: e_def)
  have q: "(2::real) powr of_int k / 2 powr of_int e = of_int (2 ^ nat (k - e))"
    by (rule pow2_quot[OF ek])
  have q': "- ((2::real) powr of_int k) / 2 powr of_int e = - of_int (2 ^ nat (k - e))"
    using q by simp
  have r: "of_int (round_half_even (- (2 powr of_int k) / 2 powr of_int e)) * 2 powr of_int e
      = - ((2::real) powr of_int k)"
    unfolding q' round_half_even_neg_int using q by (simp add: field_simps)
  have ex: "\<lfloor>log 2 \<bar>- ((2::real) powr of_int k)\<bar>\<rfloor> = k" by simp
  have nz: "- ((2::real) powr of_int k) \<noteq> 0" by simp
  have lt: "\<not> 2 ^ 1024 \<le> \<bar>- ((2::real) powr of_int k)\<bar>"
    using pow2_lt_max[OF assms(2)] by simp
  show ?thesis
    unfolding binary64_round_def Let_def ex e_def[symmetric] r
    using nz lt by simp
qed

lemma small_rounds_to_zero:
  fixes y :: real
  assumes "0 < y" "y \<le> 1 / 4"
  shows "round_half_even y = 0"
proof -
  have fl: "\<lfloor>y\<rfloor> = 0" using assms by (simp add: floor_eq_iff)
  show ?thesis unfolding round_half_even_def Let_def fl using assms by simp
qed

lemma binary64_round_underflow:
  fixes k :: int
  assumes "k \<le> - 1076"
  shows "binary64_round (2 powr of_int k) = Fin 0"
proof -
  have e: "max (k - 52) (- 1074) = - 1074" using assms by simp
  define y where "y = (2::real) powr of_int k / 2 powr of_int (- 1074 :: int)"
  have "y = 2 powr (of_int k - of_int (- 1074 :: int))"
    unfolding y_def by (rule powr_diff[symmetric])
  then have y: "y = 2 powr (of_int (k + 1074))" by simp
  have "(2::real) powr (of_int (k + 1074)) \<le> 2 powr (of_int (- 2 :: int))"
    using assms by (intro powr_mono) auto
  also have "\<dots> = 1 / 4" by (simp add: powr_minus_divide)
  finally have ub: "y \<le> 1 / 4" unfolding y .
  have lb: "0 < y" unfolding y by simp
  have rd: "round_half_even y = 0" by (rule small_rounds_to_zero[OF lb ub])
  show ?thesis
    unfolding binary64_round_def Let_def binary64_exponent_pow2 e y_def[symmetric] rd by simp
qed

subsection \<open>Triangle metrics on coincident vertices\<close>

lemma binary64_round_zero: "binary64_round 0 = Fin 0"
  by (simp add: binary64_round_def)

lemma tiny: "binary64_round (2 powr - 600) = Fin (2 powr - 600)"
  and tiny_neg: "binary64_round (- (2 powr - 600)) = Fin (- (2 powr - 600))"
  and tiny_twice: "binary64_round (2 powr - 599) = Fin (2 powr - 599)"
  and tiny_product: "binary64_round (2 powr - 1199) = Fin 0"
  using binary64_round_pow2[of "- 600"] binary64_round_neg_pow2[of "- 600"]
    binary64_round_pow2[of "- 599"] binary64_round_underflow[of "- 1199"]
  by simp_all

lemma twice_tiny: "2 * (2::real) powr - 600 = 2 powr - 599"
proof -
  have "(2::real) powr - 599 = 2 powr (1 + - 600)" by simp
  also have "\<dots> = 2 powr 1 * 2 powr - 600" by (rule powr_add)
  finally show ?thesis by simp
qed

lemma tiny_times: "(2::real) powr - 599 * 2 powr - 600 = 2 powr - 1199"
proof -
  have "(2::real) powr - 1199 = 2 powr (- 599 + - 600)" by simp
  also have "\<dots> = 2 powr - 599 * 2 powr - 600" by (rule powr_add)
  finally show ?thesis by simp
qed

lemma tiny_nonzero: "(2::real) powr - 600 \<noteq> 0" by simp

lemma distance_coincident: "distance (Fin 0, Fin 0) (Fin 0, Fin 0) = Fin 0"
  by (simp add: distance_def fsub_def binary64_round_zero)

lemma distance_tiny_1: "distance (Fin 0, Fin 0) (Fin (2 powr - 600), Fin 0) = Fin (2 powr - 600)"
  by (simp add: distance_def fsub_def binary64_round_zero tiny tiny_neg)

lemma distance_tiny_2: "distance (Fin (2 powr - 600), Fin 0) (Fin 0, Fin 0) = Fin (2 powr - 600)"
  by (simp add: distance_def fsub_def binary64_round_zero tiny tiny_neg)

lemma internal_angle_underflow:
  "internal_angle (Fin 0) (Fin (2 powr - 600)) (Fin (2 powr - 600)) = Inl ZeroDivisionError"
proof -
  have "fmul (fmul (Fin 2) (Fin (2 powr - 600))) (Fin (2 powr - 600)) = Fin 0"
    by (simp add: twice_tiny tiny_twice tiny_times tiny_product)
  then show ?thesis
    unfolding internal_angle_def by (simp add: feq_def fdiv_def del: fmul.simps)
qed

text \<open>
  Claim C3 fails on the triangle \<open>(0, 0), (0, 0), (2 powr -600, 0)\<close>, whose first
  edge has length zero. The guard of \<^verbatim>\<open>_min_internal_angle\<close> tests the two adjacent
  sides against zero; here both are \<open>2 powr -600\<close>, their product underflows to zero,
  and the division raises \<^verbatim>\<open>ZeroDivisionError\<close>.
\<close>

theorem coincident_vertices_raise_ZeroDivisionError:
  "distance (Fin 0, Fin 0) (Fin 0, Fin 0) = Fin 0
   \<and> triangle_metrics ((Fin 0, Fin 0), (Fin 0, Fin 0), (Fin (2 powr - 600), Fin 0))
       = Inl ZeroDivisionError"
proof -
  have "min_internal_angle (Fin 0) (Fin (2 powr - 600)) (Fin (2 powr - 600)) = Inl ZeroDivisionError"
    unfolding min_internal_angle_def internal_angle_underflow by simp
  then have "triangle_metrics ((Fin 0, Fin 0), (Fin 0, Fin 0), (Fin (2 powr - 600), Fin 0))
       = Inl ZeroDivisionError"
    unfolding triangle_metrics_def Let_def split_conv distance_coincident distance_tiny_1 distance_tiny_2
    by simp
  with distance_coincident show ?thesis by simp
qed

lemma tiny_triangle_metrics:
  "triangle_metrics ((Fin 0, Fin 0), (Fin 0, Fin 0), (Fin (2 powr - 600), Fin 0))
       = Inl ZeroDivisionError"
proof -
  have "min_internal_angle (Fin 0) (Fin (2 powr - 600)) (Fin (2 powr - 600)) = Inl ZeroDivisionError"
    unfolding min_internal_angle_def internal_angle_underflow by simp
  then show ?thesis
    unfolding triangle_metrics_def Let_def split_conv distance_coincident distance_tiny_1 distance_tiny_2
    by simp
qed

lemma internal_angle_guard:
  "internal_angle (Fin (2 powr - 600)) (Fin 0) (Fin (2 powr - 600)) = Inr (Fin 0)"
  by (simp add: internal_angle_def feq_def)

text \<open>
  Claim C4 fails on the degenerate triangle \<open>(0, 0), (2 powr -600, 0), (2 powr -600, 0)\<close>:
  its last two vertices coincide and its computed area is 0, so the claim gives it the
  minimum angle 0. The first pass of \<^verbatim>\<open>_min_internal_angle\<close> takes the guard, the second
  has the two sides \<open>2 powr -600\<close>, whose product underflows to zero, and the division
  raises \<^verbatim>\<open>ZeroDivisionError\<close>: the triangle gets no minimum angle at all. This is the
  defect of claim C3, reached in another pass of the loop.
\<close>

theorem degenerate_triangle_has_no_min_angle:
  "distance (Fin (2 powr - 600), Fin 0) (Fin (2 powr - 600), Fin 0) = Fin 0
   \<and> fmul (Fin (1 / 2))
        (fabs (fsub (fmul (fsub (Fin (2 powr - 600)) (Fin 0)) (fsub (Fin 0) (Fin 0)))
                    (fmul (fsub (Fin (2 powr - 600)) (Fin 0)) (fsub (Fin 0) (Fin 0))))) = Fin 0
   \<and> triangle_metrics ((Fin 0, Fin 0), (Fin (2 powr - 600), Fin 0), (Fin (2 powr - 600), Fin 0))
       = Inl ZeroDivisionError"
proof -
  have z: "fsub (Fin (2 powr - 600)) (Fin (2 powr - 600)) = Fin 0" "fsub (Fin 0) (Fin 0) = Fin 0"
    by (simp_all add: fsub_def binary64_round_zero)
  have d: "distance (Fin (2 powr - 600), Fin 0) (Fin (2 powr - 600), Fin 0) = Fin 0"
    by (simp add: distance_def z binary64_round_zero)
  have a: "fmul (Fin (1 / 2))
        (fabs (fsub (fmul (fsub (Fin (2 powr - 600)) (Fin 0)) (fsub (Fin 0) (Fin 0)))
                    (fmul (fsub (Fin (2 powr - 600)) (Fin 0)) (fsub (Fin 0) (Fin 0))))) = Fin 0"
    by (simp add: fsub_def binary64_round_zero tiny)
  have "min_internal_angle (Fin (2 powr - 600)) (Fin 0) (Fin (2 powr - 600)) = Inl ZeroDivisionError"
    unfolding min_internal_angle_def internal_angle_guard internal_angle_underflow by simp
  then have "triangle_metrics ((Fin 0, Fin 0), (Fin (2 powr - 600), Fin 0), (Fin (2 powr - 600), Fin 0))
       = Inl ZeroDivisionError"
    unfolding triangle_metrics_def Let_def split_conv distance_tiny_1 distance_tiny_2 d
    by simp
  with d a show ?thesis by simp
qed

subsection \<open>Properties of the comparator\<close>

lemma clamp_in_range:
  "\<exists>x. py_max2 (Fin (- 1)) (py_min2 (Fin 1) c) = Fin x \<and> - 1 \<le> x \<and> x \<le> 1"
  by (cases c) (auto simp: py_max2_def py_min2_def)

lemma acos_clamped: "\<exists>r. acos (py_max2 (Fin (- 1)) (py_min2 (Fin 1) c)) = Inr r"
proof -
  obtain x where "py_max2 (Fin (- 1)) (py_min2 (Fin 1) c) = Fin x" "- 1 \<le> x" "x \<le> 1"
    using clamp_in_range by blast
  then show ?thesis by simp
qed

lemma internal_angle_error: "internal_angle a b c = Inl e \<Longrightarrow> e = ZeroDivisionError"
proof -
  assume h: "internal_angle a b c = Inl e"
  show ?thesis
  proof (cases "fdiv (fsub (fadd (fmul b b) (fmul c c)) (fmul a a)) (fmul (fmul (Fin 2) b) c)")
    case (Inl e')
    then have "e' = ZeroDivisionError" by (simp add: fdiv_def split: if_splits)
    with h Inl show ?thesis by (simp add: internal_angle_def split: if_splits)
  next
    case (Inr cs)
    obtain r where "acos (py_max2 (Fin (- 1)) (py_min2 (Fin 1) cs)) = Inr r"
      using acos_clamped by blast
    with h Inr show ?thesis by (simp add: internal_angle_def split: if_splits)
  qed
qed

lemma degrees_total: "degrees r = Inr (fquot (fmul r (Fin 180)) math_pi)"
  by (simp add: degrees_def fdiv_def math_pi_def)

lemma min_internal_angle_error: "min_internal_angle ab bc ca = Inl e \<Longrightarrow> e = ZeroDivisionError"
  unfolding min_internal_angle_def degrees_total
  by (auto split: sum.splits dest: internal_angle_error)

lemma triangle_metrics_error: "triangle_metrics t = Inl e \<Longrightarrow> e = ZeroDivisionError"
  unfolding triangle_metrics_def Let_def
  by (auto split: prod.splits sum.splits dest: min_internal_angle_error)


lemma compare_loop_result:
  "\<forall>i\<in>set idxs. i < length (triangles r) \<and> i < length (triangles c) \<Longrightarrow>
   compare_loop r c tol found idxs = Inr ds \<Longrightarrow>
   \<exists>new. ds = found @ new
     \<and> map triangle_index new
         = filter (\<lambda>i. \<not> fle (fst (triangle_delta (triangles r ! i) (triangles c ! i))) tol) idxs
     \<and> (\<forall>d\<in>set new. max_vertex_delta d
            = fst (triangle_delta (triangles r ! triangle_index d) (triangles c ! triangle_index d))
          \<and> vertices_a d = triangles r ! triangle_index d
          \<and> vertices_b d = triangles c ! triangle_index d)"
proof (induction idxs arbitrary: found)
  case Nil
  then show ?case by simp
next
  case (Cons i idxs)
  obtain md mc where td: "triangle_delta (triangles r ! i) (triangles c ! i) = (md, mc)"
    by (cases "triangle_delta (triangles r ! i) (triangles c ! i)")
  have bounds: "\<forall>i\<in>set idxs. i < length (triangles r) \<and> i < length (triangles c)"
    using Cons.prems(1) by simp
  have ir: "py_index (triangles r) i = Inr (triangles r ! i)"
    and ic: "py_index (triangles c) i = Inr (triangles c ! i)"
    using Cons.prems(1) by (simp_all add: py_index_def)
  show ?case
  proof (cases "fle md tol")
    case True
    then have "compare_loop r c tol found idxs = Inr ds"
      using Cons.prems(2) by (simp add: ir ic td)
    from Cons.IH[OF bounds this] show ?thesis using True td by simp
  next
    case False
    then obtain ma mb where ma: "triangle_metrics (triangles r ! i) = Inr ma"
      and mb: "triangle_metrics (triangles c ! i) = Inr mb"
      and rest: "compare_loop r c tol
              (found @ [\<lparr>triangle_index = i, max_vertex_delta = md,
                          max_coord_delta = mc,
                          area_a = area ma, area_b = area mb,
                          min_angle_a = min_angle_deg ma,
                          min_angle_b = min_angle_deg mb,
                          vertices_a = triangles r ! i, vertices_b = triangles c ! i\<rparr>]) idxs = Inr ds"
      using Cons.prems(2) by (auto simp: ir ic td split: sum.splits)
    from Cons.IH[OF bounds rest] obtain new where
      n: "ds = (found @ [\<lparr>triangle_index = i, max_vertex_delta = md,
                          max_coord_delta = mc,
                          area_a = area ma, area_b = area mb,
                          min_angle_a = min_angle_deg ma,
                          min_angle_b = min_angle_deg mb,
                          vertices_a = triangles r ! i, vertices_b = triangles c ! i\<rparr>]) @ new"
      and m: "map triangle_index new
         = filter (\<lambda>i. \<not> fle (fst (triangle_delta (triangles r ! i) (triangles c ! i))) tol) idxs"
      and f: "\<forall>d\<in>set new. max_vertex_delta d
            = fst (triangle_delta (triangles r ! triangle_index d) (triangles c ! triangle_index d))
          \<and> vertices_a d = triangles r ! triangle_index d
          \<and> vertices_b d = triangles c ! triangle_index d"
      by blast
    show ?thesis
      apply (rule exI[of _ "\<lparr>triangle_index = i, max_vertex_delta = md,
                          max_coord_delta = mc,
                          area_a = area ma, area_b = area mb,
                          min_angle_a = min_angle_deg ma,
                          min_angle_b = min_angle_deg mb,
                          vertices_a = triangles r ! i, vertices_b = triangles c ! i\<rparr> # new"])
      using n m f False td by simp
  qed
qed

lemma compare_range_bounds:
  "i \<in> set (compare_range r c cap) \<Longrightarrow> i < length (triangles r) \<and> i < length (triangles c)"
  by (auto simp: compare_range_def py_range_def)


lemma triangle_delta_fst:
  "fst (triangle_delta (a0, a1, a2) (b0, b1, b2))
     = py_max2 (py_max2 (py_max2 (Fin 0) (vertex_delta a0 b0)) (vertex_delta a1 b1))
         (vertex_delta a2 b2)"
  by (simp add: triangle_delta_def delta_step_def vertex_delta_def Let_def)

lemma py_max2_not_NaN: "m \<noteq> NaN \<Longrightarrow> py_max2 m d \<noteq> NaN"
  by (cases m; cases d) (auto simp: py_max2_def)

lemma flt_py_max2:
  "m \<noteq> NaN \<Longrightarrow> flt t (py_max2 m d) \<longleftrightarrow> flt t m \<or> flt t d"
  by (cases m; cases d; cases t) (auto simp: py_max2_def)

lemma not_fle_iff_flt: "m \<noteq> NaN \<Longrightarrow> t \<noteq> NaN \<Longrightarrow> \<not> fle m t \<longleftrightarrow> flt t m"
  by (cases m; cases t) (auto simp: fle_def feq_def)

lemma nonneg_tolerance: "fle (Fin 0) t \<Longrightarrow> t \<noteq> NaN \<and> \<not> flt t (Fin 0)"
  by (cases t) (auto simp: fle_def feq_def)

lemma exceeds_iff:
  assumes "fle (Fin 0) t"
  shows "\<not> fle (fst (triangle_delta (a0, a1, a2) (b0, b1, b2))) t
     \<longleftrightarrow> flt t (vertex_delta a0 b0) \<or> flt t (vertex_delta a1 b1) \<or> flt t (vertex_delta a2 b2)"
proof -
  let ?m0 = "py_max2 (Fin 0) (vertex_delta a0 b0)"
  let ?m1 = "py_max2 ?m0 (vertex_delta a1 b1)"
  let ?m2 = "py_max2 ?m1 (vertex_delta a2 b2)"
  have t: "t \<noteq> NaN" "\<not> flt t (Fin 0)" using nonneg_tolerance[OF assms] by simp_all
  have n0: "?m0 \<noteq> NaN" by (rule py_max2_not_NaN) simp
  have n1: "?m1 \<noteq> NaN" by (rule py_max2_not_NaN[OF n0])
  have n2: "?m2 \<noteq> NaN" by (rule py_max2_not_NaN[OF n1])
  have "\<not> fle ?m2 t \<longleftrightarrow> flt t ?m2" by (rule not_fle_iff_flt[OF n2 t(1)])
  also have "\<dots> \<longleftrightarrow> flt t ?m1 \<or> flt t (vertex_delta a2 b2)" by (rule flt_py_max2[OF n1])
  also have "flt t ?m1 \<longleftrightarrow> flt t ?m0 \<or> flt t (vertex_delta a1 b1)" by (rule flt_py_max2[OF n0])
  also have "flt t ?m0 \<longleftrightarrow> flt t (vertex_delta a0 b0)"
    using flt_py_max2[of "Fin 0" t "vertex_delta a0 b0"] t(2) by simp
  finally show ?thesis unfolding triangle_delta_fst by blast
qed

lemma compare_polylines_indices:
  assumes "compare_polylines r c tol cap = Inr ds"
  shows "map triangle_index ds
     = filter (\<lambda>i. \<not> fle (fst (triangle_delta (triangles r ! i) (triangles c ! i))) tol)
         (compare_range r c cap)"
    and "\<forall>d\<in>set ds. max_vertex_delta d
            = fst (triangle_delta (triangles r ! triangle_index d) (triangles c ! triangle_index d))"
proof -
  have b: "\<forall>i\<in>set (compare_range r c cap). i < length (triangles r) \<and> i < length (triangles c)"
    using compare_range_bounds by blast
  from compare_loop_result[OF b assms[unfolded compare_polylines_def]]
  show "map triangle_index ds
     = filter (\<lambda>i. \<not> fle (fst (triangle_delta (triangles r ! i) (triangles c ! i))) tol)
         (compare_range r c cap)"
    and "\<forall>d\<in>set ds. max_vertex_delta d
            = fst (triangle_delta (triangles r ! triangle_index d) (triangles c ! triangle_index d))"
    by auto
qed


text \<open>
  The comparison returns unless the metrics of a triangle that is to be reported raise.
\<close>

lemma compare_loop_returns:
  "\<forall>i\<in>set idxs. i < length (triangles r) \<and> i < length (triangles c)
      \<and> (\<not> fle (fst (triangle_delta (triangles r ! i) (triangles c ! i))) tol
           \<longrightarrow> (\<exists>ma. triangle_metrics (triangles r ! i) = Inr ma)
             \<and> (\<exists>mb. triangle_metrics (triangles c ! i) = Inr mb)) \<Longrightarrow>
   \<exists>ds. compare_loop r c tol found idxs = Inr ds"
proof (induction idxs arbitrary: found)
  case Nil
  then show ?case by simp
next
  case (Cons i idxs)
  then show ?case
    by (cases "triangle_delta (triangles r ! i) (triangles c ! i)")
       (auto simp: py_index_def)
qed

lemma compare_polylines_returns:
  assumes "\<forall>i\<in>set (compare_range r c cap).
      \<not> fle (fst (triangle_delta (triangles r ! i) (triangles c ! i))) tol
        \<longrightarrow> (\<exists>ma. triangle_metrics (triangles r ! i) = Inr ma)
          \<and> (\<exists>mb. triangle_metrics (triangles c ! i) = Inr mb)"
  shows "\<exists>ds. compare_polylines r c tol cap = Inr ds"
  unfolding compare_polylines_def
  by (rule compare_loop_returns) (use assms compare_range_bounds in blast)

text \<open>
  On every run that returns, for a tolerance that is not negative and an index of the
  comparison range, a diff with that index is reported iff the distance of one of the
  three vertex pairs is strictly greater than the tolerance; the reported
  \<open>max_vertex_delta\<close> is the maximum of the three distances and exceeds the tolerance;
  a pair whose three distances are zero is not reported.
\<close>

lemma reported_iff_exceeds_on_return:
  assumes ret: "compare_polylines r c tol cap = Inr ds"
    and tol: "fle (Fin 0) tol"
    and i: "i \<in> set (compare_range r c cap)"
    and ta: "triangles r ! i = (a0, a1, a2)"
    and tb: "triangles c ! i = (b0, b1, b2)"
  shows "(i \<in> set (map triangle_index ds)
            \<longleftrightarrow> flt tol (vertex_delta a0 b0) \<or> flt tol (vertex_delta a1 b1)
                \<or> flt tol (vertex_delta a2 b2))
       \<and> (\<forall>d\<in>set ds. triangle_index d = i \<longrightarrow>
             max_vertex_delta d
               = py_max2 (py_max2 (py_max2 (Fin 0) (vertex_delta a0 b0)) (vertex_delta a1 b1))
                   (vertex_delta a2 b2)
             \<and> flt tol (max_vertex_delta d))
       \<and> (vertex_delta a0 b0 = Fin 0 \<and> vertex_delta a1 b1 = Fin 0 \<and> vertex_delta a2 b2 = Fin 0
            \<longrightarrow> i \<notin> set (map triangle_index ds))"
proof -
  let ?ex = "flt tol (vertex_delta a0 b0) \<or> flt tol (vertex_delta a1 b1)
                \<or> flt tol (vertex_delta a2 b2)"
  have m: "map triangle_index ds
     = filter (\<lambda>i. \<not> fle (fst (triangle_delta (triangles r ! i) (triangles c ! i))) tol)
         (compare_range r c cap)"
    by (rule compare_polylines_indices(1)[OF ret])
  have "i \<in> set (map triangle_index ds)
      \<longleftrightarrow> \<not> fle (fst (triangle_delta (a0, a1, a2) (b0, b1, b2))) tol"
    unfolding m using i ta tb by simp
  then have A: "i \<in> set (map triangle_index ds) \<longleftrightarrow> ?ex"
    unfolding exceeds_iff[OF tol] .
  have t: "tol \<noteq> NaN" "\<not> flt tol (Fin 0)" using nonneg_tolerance[OF tol] by simp_all
  have B: "\<forall>d\<in>set ds. triangle_index d = i \<longrightarrow>
             max_vertex_delta d
               = py_max2 (py_max2 (py_max2 (Fin 0) (vertex_delta a0 b0)) (vertex_delta a1 b1))
                   (vertex_delta a2 b2)
             \<and> flt tol (max_vertex_delta d)"
  proof (intro ballI impI)
    fix d assume d: "d \<in> set ds" and di: "triangle_index d = i"
    have v: "max_vertex_delta d = fst (triangle_delta (a0, a1, a2) (b0, b1, b2))"
      using compare_polylines_indices(2)[OF ret] d di ta tb by simp
    have "i \<in> set (map triangle_index ds)" using d di by force
    then have "\<not> fle (fst (triangle_delta (a0, a1, a2) (b0, b1, b2))) tol"
      using A exceeds_iff[OF tol, of a0 a1 a2 b0 b1 b2] by simp
    moreover have "fst (triangle_delta (a0, a1, a2) (b0, b1, b2)) \<noteq> NaN"
      unfolding triangle_delta_fst by (intro py_max2_not_NaN) simp
    ultimately have "flt tol (fst (triangle_delta (a0, a1, a2) (b0, b1, b2)))"
      using not_fle_iff_flt t(1) by blast
    with v show "max_vertex_delta d
               = py_max2 (py_max2 (py_max2 (Fin 0) (vertex_delta a0 b0)) (vertex_delta a1 b1))
                   (vertex_delta a2 b2)
             \<and> flt tol (max_vertex_delta d)"
      by (simp add: triangle_delta_fst)
  qed
  have C: "vertex_delta a0 b0 = Fin 0 \<and> vertex_delta a1 b1 = Fin 0 \<and> vertex_delta a2 b2 = Fin 0
            \<longrightarrow> i \<notin> set (map triangle_index ds)"
    using A t(2) by auto
  from A B C show ?thesis by blast
qed

lemma binary64_round_one: "binary64_round 1 = Fin 1"
  and binary64_round_minus_one: "binary64_round (- 1) = Fin (- 1)"
  using binary64_round_pow2[of 0] binary64_round_neg_pow2[of 0] by simp_all

lemmas float_eval = fsub_def binary64_round_zero binary64_round_one binary64_round_minus_one

lemma example_range: "compare_range example_reference example_candidate None = [0, 1]"
  by (simp add: compare_range_def py_range_def effective_limit_def example_reference_def
      example_candidate_def upt_rec)

lemma example_range_capped:
  "compare_range example_reference example_candidate (Some 1) = [0]"
  by (simp add: compare_range_def py_range_def effective_limit_def example_reference_def
      example_candidate_def upt_rec)

lemma example_delta_0:
  "triangle_delta ((Fin 0, Fin 0), (Fin 1, Fin 0), (Fin 0, Fin 1))
      ((Fin 0, Fin 0), (Fin 1, Fin 0), (Fin 0, Fin 1)) = (Fin 0, Fin 0)"
  by (simp add: triangle_delta_def delta_step_def Let_def py_max2_def py_max3_def float_eval)

lemma example_delta_1:
  "triangle_delta ((Fin 0, Fin 0), (Fin 0, Fin 0), (Fin 0, Fin 0))
      ((Fin 1, Fin 0), (Fin 1, Fin 0), (Fin 1, Fin 0)) = (Fin 1, Fin 1)"
  by (simp add: triangle_delta_def delta_step_def Let_def py_max2_def py_max3_def float_eval)

lemma example_metrics:
  "triangle_metrics ((Fin 0, Fin 0), (Fin 0, Fin 0), (Fin 0, Fin 0))
     = Inr \<lparr>area = Fin 0, min_angle_deg = Fin 0, edge_lengths = (Fin 0, Fin 0, Fin 0)\<rparr>"
  "triangle_metrics ((Fin 1, Fin 0), (Fin 1, Fin 0), (Fin 1, Fin 0))
     = Inr \<lparr>area = Fin 0, min_angle_deg = Fin 0, edge_lengths = (Fin 0, Fin 0, Fin 0)\<rparr>"
  by (simp_all add: triangle_metrics_def min_internal_angle_def internal_angle_def degrees_def
      fdiv_def math_pi_def distance_def feq_def py_min3_def py_min2_def Let_def float_eval)

lemma example_compare:
  "compare_polylines example_reference example_candidate (Fin (1 / 1024)) None = Inr [example_diff]"
  unfolding compare_polylines_def example_range
  by (simp add: example_reference_def example_candidate_def example_diff_def py_index_def
      example_delta_0 example_delta_1 example_metrics fle_def feq_def)

lemma example_compare_capped:
  "compare_polylines example_reference example_candidate (Fin (1 / 1024)) (Some 1) = Inr []"
  unfolding compare_polylines_def example_range_capped
  by (simp add: example_reference_def example_candidate_def py_index_def
      example_delta_0 fle_def feq_def)


lemma reported_iff_exceeds_example:
  "compare_polylines example_reference example_candidate (Fin (1 / 1024)) None
       = Inr [example_diff]
   \<and> fle (Fin 0) (Fin (1 / 1024))
   \<and> 1 \<in> set (compare_range example_reference example_candidate None)
   \<and> 1 \<in> set (map triangle_index [example_diff])
   \<and> (flt (Fin (1 / 1024)) (vertex_delta (Fin 0, Fin 0) (Fin 1, Fin 0)))
   \<and> 0 \<in> set (compare_range example_reference example_candidate None)
   \<and> vertex_delta (Fin 1, Fin 0) (Fin 1, Fin 0) = Fin 0
   \<and> 0 \<notin> set (map triangle_index [example_diff])"
proof -
  have t: "fle (Fin 0) (Fin (1 / 1024))" by (simp add: fle_def)
  have i1: "1 \<in> set (compare_range example_reference example_candidate None)"
    and i0: "0 \<in> set (compare_range example_reference example_candidate None)"
    unfolding example_range by simp_all
  have r1: "triangles example_reference ! 1 = ((Fin 0, Fin 0), (Fin 0, Fin 0), (Fin 0, Fin 0))"
    and c1: "triangles example_candidate ! 1 = ((Fin 1, Fin 0), (Fin 1, Fin 0), (Fin 1, Fin 0))"
    and r0: "triangles example_reference ! 0 = ((Fin 0, Fin 0), (Fin 1, Fin 0), (Fin 0, Fin 1))"
    and c0: "triangles example_candidate ! 0 = ((Fin 0, Fin 0), (Fin 1, Fin 0), (Fin 0, Fin 1))"
    by (simp_all add: example_reference_def example_candidate_def)
  have rep: "1 \<in> set (map triangle_index [example_diff])" by (simp add: example_diff_def)
  have "flt (Fin (1 / 1024)) (vertex_delta (Fin 0, Fin 0) (Fin 1, Fin 0))"
    using reported_iff_exceeds_on_return[OF example_compare t i1 r1 c1] rep by blast
  moreover have z: "vertex_delta (Fin 0, Fin 0) (Fin 0, Fin 0) = Fin 0"
    "vertex_delta (Fin 1, Fin 0) (Fin 1, Fin 0) = Fin 0"
    "vertex_delta (Fin 0, Fin 1) (Fin 0, Fin 1) = Fin 0"
    by (simp_all add: vertex_delta_def float_eval)
  moreover have "0 \<notin> set (map triangle_index [example_diff])"
    using reported_iff_exceeds_on_return[OF example_compare t i0 r0 c0] z by blast
  ultimately show ?thesis using example_compare t i1 i0 rep by blast
qed

text \<open>
  Claim C1 fails on \<open>tiny_reference\<close> and \<open>tiny_candidate\<close>. Index 0 is in the range,
  the first vertices are at distance 1, above the tolerance, but no diff is reported:
  the metrics of the reference triangle raise \<^verbatim>\<open>ZeroDivisionError\<close> (the defect of
  claim C3) before the diff is built, and the comparison ends with that exception.
\<close>

theorem exceeding_delta_is_not_reported:
  "compare_range tiny_reference tiny_candidate None = [0]
   \<and> vertex_delta (Fin 0, Fin 0) (Fin 0, Fin 1) = Fin 1
   \<and> triangle_delta ((Fin 0, Fin 0), (Fin 0, Fin 0), (Fin (2 powr - 600), Fin 0))
        ((Fin 0, Fin 1), (Fin 0, Fin 0), (Fin (2 powr - 600), Fin 0)) = (Fin 1, Fin 1)
   \<and> fle (Fin 0) (Fin (1 / 1024)) \<and> flt (Fin (1 / 1024)) (Fin 1)
   \<and> compare_polylines tiny_reference tiny_candidate (Fin (1 / 1024)) None
       = Inl ZeroDivisionError"
proof -
  have r: "compare_range tiny_reference tiny_candidate None = [0]"
    by (simp add: compare_range_def py_range_def effective_limit_def tiny_reference_def
        tiny_candidate_def)
  have v: "vertex_delta (Fin 0, Fin 0) (Fin 0, Fin 1) = Fin 1"
    by (simp add: vertex_delta_def float_eval)
  have d: "triangle_delta ((Fin 0, Fin 0), (Fin 0, Fin 0), (Fin (2 powr - 600), Fin 0))
        ((Fin 0, Fin 1), (Fin 0, Fin 0), (Fin (2 powr - 600), Fin 0)) = (Fin 1, Fin 1)"
    by (simp add: triangle_delta_def delta_step_def Let_def py_max2_def py_max3_def float_eval)
  have t: "fle (Fin 0) (Fin (1 / 1024))" "flt (Fin (1 / 1024)) (Fin 1)" "\<not> fle (Fin 1) (Fin (1 / 1024))"
    by (simp_all add: fle_def feq_def)
  have "compare_polylines tiny_reference tiny_candidate (Fin (1 / 1024)) None
       = Inl ZeroDivisionError"
    unfolding compare_polylines_def r
    by (simp add: tiny_reference_def tiny_candidate_def py_index_def d t tiny_triangle_metrics)
  with r v d t show ?thesis by simp
qed

subsection \<open>Sign and range of rounded results\<close>

lemma round_half_even_nonneg: "0 \<le> y \<Longrightarrow> 0 \<le> round_half_even y"
  by (auto simp: round_half_even_def Let_def)

lemma fle_zero_Fin: "fle (Fin 0) (Fin r) \<longleftrightarrow> 0 \<le> r"
  and fle_zero_PInf: "fle (Fin 0) PInf"
  by (auto simp: fle_def feq_def)

lemma binary64_round_nonneg: "0 \<le> x \<Longrightarrow> fle (Fin 0) (binary64_round x)"
proof -
  assume x: "0 \<le> x"
  have "0 \<le> round_half_even (x / 2 powr of_int e)" for e :: int
    by (rule round_half_even_nonneg) (use x in simp)
  then have r: "0 \<le> of_int (round_half_even (x / 2 powr of_int e)) * (2::real) powr of_int e" for e :: int
    by simp
  show ?thesis
  proof (cases "x = 0")
    case True
    then show ?thesis by (simp add: binary64_round_def fle_zero_Fin)
  next
    case False
    then have "0 < x" using x by simp
    then show ?thesis
      unfolding binary64_round_def Let_def using r[of "max (\<lfloor>log 2 \<bar>x\<bar>\<rfloor> - 52) (- 1074)"] by (simp add: fle_zero_Fin fle_zero_PInf)
  qed
qed

lemma floor_log2_scaled:
  fixes m k :: int
  assumes "m \<noteq> 0" "\<bar>m\<bar> < 2 ^ 53"
  shows "\<lfloor>log 2 \<bar>of_int m * 2 powr of_int k\<bar>\<rfloor> \<le> 52 + k"
proof -
  have pos: "0 < \<bar>real_of_int m\<bar>" using assms(1) by simp
  have "\<bar>real_of_int m\<bar> < 2 ^ 53" using assms(2)
    by (metis of_int_abs of_int_less_numeral_power_cancel_iff)
  then have "\<bar>real_of_int m\<bar> < 2 powr 53" by simp
  then have "log 2 \<bar>real_of_int m\<bar> < 53"
    using pos by (simp add: log_less_iff)
  moreover have "log 2 \<bar>of_int m * 2 powr of_int k\<bar> = log 2 \<bar>real_of_int m\<bar> + of_int k"
    using pos by (simp add: abs_mult log_mult)
  ultimately have "log 2 \<bar>of_int m * 2 powr of_int k\<bar> < of_int (53 + k)" by simp
  then have "\<lfloor>log 2 \<bar>of_int m * 2 powr of_int k\<bar>\<rfloor> < 53 + k"
    by (simp only: floor_less_iff)
  then show ?thesis by simp
qed

lemma binary64_round_scaled:
  fixes m k :: int
  assumes m: "m \<noteq> 0" "\<bar>m\<bar> < 2 ^ 53" and k: "- 1074 \<le> k"
    and b: "\<bar>of_int m * 2 powr of_int k\<bar> < (2::real) ^ 1024"
  shows "binary64_round (of_int m * 2 powr of_int k) = Fin (of_int m * 2 powr of_int k)"
proof -
  define e where "e = max (\<lfloor>log 2 \<bar>of_int m * 2 powr of_int k\<bar>\<rfloor> - 52) (- 1074)"
  have ek: "e \<le> k" using floor_log2_scaled[OF m, of k] k by (simp add: e_def)
  have q: "(2::real) powr of_int k / 2 powr of_int e = of_int (2 ^ nat (k - e))"
    by (rule pow2_quot[OF ek])
  have "of_int m * 2 powr of_int k / 2 powr of_int e
      = of_int m * ((2::real) powr of_int k / 2 powr of_int e)" by simp
  also have "\<dots> = of_int (m * 2 ^ nat (k - e))" unfolding q by simp
  finally have y: "of_int m * 2 powr of_int k / 2 powr of_int e
      = real_of_int (m * 2 ^ nat (k - e))" .
  have "real_of_int (m * 2 ^ nat (k - e)) * 2 powr of_int e
      = of_int m * (of_int (2 ^ nat (k - e)) * 2 powr of_int e)" by simp
  also have "of_int (2 ^ nat (k - e)) * 2 powr of_int e = (2::real) powr of_int k"
    using q by (simp add: field_simps)
  finally have r: "of_int (round_half_even (of_int m * 2 powr of_int k / 2 powr of_int e))
        * 2 powr of_int e = of_int m * (2::real) powr of_int k"
    unfolding y round_half_even_int .
  have nz: "of_int m * (2::real) powr of_int k \<noteq> 0" using m(1) by simp
  show ?thesis
    unfolding binary64_round_def Let_def e_def[symmetric] r
    using nz b by simp
qed

lemma round_half_even_ge_floor: "\<lfloor>y\<rfloor> \<le> round_half_even y"
  by (simp add: round_half_even_def Let_def)

lemma binary64_round_overflow:
  assumes "2 ^ 1024 \<le> x"
  shows "binary64_round x = PInf"
proof -
  have x0: "0 < x" using assms by (smt (verit) zero_less_power)
  define j where "j = \<lfloor>log 2 \<bar>x\<bar>\<rfloor>"
  have p1024: "(2::real) powr 1024 = 2 ^ 1024" using powr_realpow[of "2::real" 1024] by simp
  have "(2::real) powr 1024 \<le> x" unfolding p1024 by (rule assms)
  moreover have "1 < (2::real)" by simp
  ultimately have "1024 \<le> log 2 x" using le_log_iff[of 2 x 1024] x0 by blast
  then have j: "1024 \<le> j" unfolding j_def using x0 by (simp add: le_floor_iff)
  have e: "max (j - 52) (- 1074) = j - 52" using j by simp
  have "of_int j \<le> log 2 x" unfolding j_def using x0 by simp
  then have jx: "2 powr of_int j \<le> x" using x0 by (simp add: le_log_iff)
  define D where "D = (2::real) powr of_int (j - 52)"
  define y where "y = x / D"
  have D0: "0 \<le> D" unfolding D_def by simp
  have "2 powr of_int j / D = (2::real) powr (of_int j - of_int (j - 52))"
    unfolding D_def by (rule powr_diff[symmetric])
  also have "\<dots> = 2 powr 52" by simp
  finally have q: "2 powr of_int j / D = (2::real) powr 52" .
  have "2 powr of_int j / D \<le> x / D" by (rule divide_right_mono[OF jx D0])
  then have "(2::real) powr 52 \<le> y" unfolding q y_def .
  then have "(2::real) ^ 52 \<le> y" by simp
  then have "real_of_int (2 ^ 52) \<le> y" by simp
  then have "2 ^ 52 \<le> \<lfloor>y\<rfloor>" by (simp only: le_floor_iff)
  then have ry: "2 ^ 52 \<le> round_half_even y" using round_half_even_ge_floor[of y] by linarith
  then have "(2::real) ^ 52 \<le> of_int (round_half_even y)"
    by (metis of_int_numeral of_int_power of_int_le_iff)
  then have "(2::real) ^ 52 * D \<le> of_int (round_half_even y) * D"
    by (rule mult_right_mono[OF _ D0])
  moreover have "(2::real) ^ 52 * D = 2 powr of_int j"
  proof -
    have "(2::real) powr of_int j = 2 powr (52 + of_int (j - 52))" by simp
    also have "\<dots> = 2 powr 52 * 2 powr of_int (j - 52)" by (rule powr_add)
    finally show ?thesis unfolding D_def by simp
  qed
  moreover have "(2::real) ^ 1024 \<le> 2 powr of_int j"
  proof -
    have "(2::real) powr 1024 \<le> 2 powr of_int j" using j by (intro powr_mono) auto
    then show ?thesis unfolding p1024 .
  qed
  ultimately have big: "(2::real) ^ 1024 \<le> of_int (round_half_even y) * D"
    by linarith
  then have "(2::real) ^ 1024 \<le> \<bar>of_int (round_half_even y) * D\<bar>" by linarith
  then show ?thesis
    unfolding binary64_round_def Let_def j_def[symmetric] e D_def[symmetric] y_def[symmetric]
    using x0 by simp
qed

subsection \<open>Triangle metrics beyond the float range\<close>

lemma scaled_bound:
  fixes m k :: int
  assumes "\<bar>m\<bar> < 2 ^ 53" "k \<le> 970"
  shows "\<bar>of_int m * 2 powr of_int k\<bar> < (2::real) ^ 1024"
proof -
  have "\<bar>real_of_int m\<bar> < 2 ^ 53" using assms(1)
    by (metis of_int_abs of_int_less_numeral_power_cancel_iff)
  then have a: "\<bar>real_of_int m\<bar> \<le> 2 powr 53" by simp
  have b: "(2::real) powr of_int k \<le> 2 powr 970" using assms(2) by (intro powr_mono) auto
  have "\<bar>of_int m * 2 powr of_int k\<bar> = \<bar>real_of_int m\<bar> * 2 powr of_int k"
    by (simp add: abs_mult)
  also have "\<dots> \<le> 2 powr 53 * 2 powr 970"
    by (rule mult_mono[OF a b]) simp_all
  also have "\<dots> = 2 powr (53 + 970)" by (rule powr_add[symmetric])
  also have "\<dots> < 2 powr 1024" by (intro powr_less_mono) auto
  also have "\<dots> = 2 ^ 1024" using powr_realpow[of "2::real" 1024] by simp
  finally show ?thesis .
qed

lemma binary64_round_exact:
  fixes m k :: int
  assumes "m \<noteq> 0" "\<bar>m\<bar> < 2 ^ 53" "- 1074 \<le> k" "k \<le> 970"
  shows "binary64_round (of_int m * 2 powr of_int k) = Fin (of_int m * 2 powr of_int k)"
  by (rule binary64_round_scaled[OF assms(1,2,3) scaled_bound[OF assms(2,4)]])

lemma huge_round:
  fixes m :: int
  assumes "m \<noteq> 0" "\<bar>m\<bar> < 2 ^ 53"
  shows "binary64_round (of_int m * huge) = Fin (of_int m * huge)"
proof -
  have "binary64_round (of_int m * 2 powr of_int 600) = Fin (of_int m * 2 powr of_int 600)"
    by (rule binary64_round_exact[OF assms]) simp_all
  then show ?thesis unfolding huge_def of_int_numeral .
qed

lemma huge_exact:
  "binary64_round (3 * huge) = Fin (3 * huge)"
  "binary64_round (4 * huge) = Fin (4 * huge)"
  "binary64_round (5 * huge) = Fin (5 * huge)"
  "binary64_round (6 * huge) = Fin (6 * huge)"
  "binary64_round (8 * huge) = Fin (8 * huge)"
  "binary64_round (10 * huge) = Fin (10 * huge)"
  "binary64_round (- (3 * huge)) = Fin (- (3 * huge))"
  "binary64_round (- (4 * huge)) = Fin (- (4 * huge))"
  using huge_round[of 3] huge_round[of 4] huge_round[of 5] huge_round[of 6]
    huge_round[of 8] huge_round[of 10] huge_round[of "- 3"] huge_round[of "- 4"]
  by simp_all

lemma huge_pos: "0 < huge" by (simp add: huge_def)

lemma huge_square: "(2::real) ^ 1024 \<le> huge * huge"
proof -
  have "(2::real) powr 1024 \<le> 2 powr (600 + 600)" by (intro powr_mono) auto
  also have "\<dots> = 2 powr 600 * 2 powr 600" by (rule powr_add)
  finally have "(2::real) powr 1024 \<le> huge * huge" unfolding huge_def .
  moreover have "(2::real) powr 1024 = 2 ^ 1024" using powr_realpow[of "2::real" 1024] by simp
  ultimately show ?thesis by (simp only:)
qed

lemma fmul_huge:
  assumes "1 \<le> a" "1 \<le> b"
  shows "fmul (Fin (a * huge)) (Fin (b * huge)) = PInf"
proof -
  have "1 * 1 \<le> a * b" by (rule mult_mono[OF assms]) (use assms in simp_all)
  then have "1 * (huge * huge) \<le> (a * b) * (huge * huge)"
    by (intro mult_right_mono) (use huge_pos in simp_all)
  then have "2 ^ 1024 \<le> a * huge * (b * huge)"
    using huge_square by (simp add: mult_ac)
  then show ?thesis by (simp only: fmul.simps binary64_round_overflow)
qed

lemma internal_angle_overflow:
  assumes "fmul a a = PInf" "fmul b b = PInf" "fmul c c = PInf"
    and "fmul (fmul (Fin 2) b) c = PInf" and "\<not> feq b (Fin 0)" and "\<not> feq c (Fin 0)"
  shows "internal_angle a b c = Inr (Fin 0)"
  using assms
  by (simp add: internal_angle_def fdiv_def fsub_def py_min2_def py_max2_def
      binary64_round_zero del: fmul.simps)

lemma huge_nonzero: "0 < a \<Longrightarrow> \<not> feq (Fin (a * huge)) (Fin 0)"
  using huge_pos by (simp add: feq_def)

lemma huge_angles:
  "internal_angle (Fin (3 * huge)) (Fin (5 * huge)) (Fin (4 * huge)) = Inr (Fin 0)"
  "internal_angle (Fin (5 * huge)) (Fin (4 * huge)) (Fin (3 * huge)) = Inr (Fin 0)"
  "internal_angle (Fin (4 * huge)) (Fin (3 * huge)) (Fin (5 * huge)) = Inr (Fin 0)"
proof -
  have d: "fmul (Fin 2) (Fin (5 * huge)) = Fin (10 * huge)"
    "fmul (Fin 2) (Fin (4 * huge)) = Fin (8 * huge)"
    "fmul (Fin 2) (Fin (3 * huge)) = Fin (6 * huge)"
    by (simp_all add: huge_exact)
  show "internal_angle (Fin (3 * huge)) (Fin (5 * huge)) (Fin (4 * huge)) = Inr (Fin 0)"
    by (rule internal_angle_overflow) (simp_all only: d fmul_huge huge_nonzero, simp_all add: fmul_huge huge_nonzero del: fmul.simps)
  show "internal_angle (Fin (5 * huge)) (Fin (4 * huge)) (Fin (3 * huge)) = Inr (Fin 0)"
    by (rule internal_angle_overflow) (simp_all only: d fmul_huge huge_nonzero, simp_all add: fmul_huge huge_nonzero del: fmul.simps)
  show "internal_angle (Fin (4 * huge)) (Fin (3 * huge)) (Fin (5 * huge)) = Inr (Fin 0)"
    by (rule internal_angle_overflow) (simp_all only: d fmul_huge huge_nonzero, simp_all add: fmul_huge huge_nonzero del: fmul.simps)
qed

lemma degrees_zero: "degrees (Fin 0) = Inr (Fin 0)"
  by (simp add: degrees_def fdiv_def math_pi_def binary64_round_zero)

lemma huge_sqrt:
  "sqrt (9 * (huge * huge)) = 3 * huge"
  "sqrt (16 * (huge * huge)) = 4 * huge"
  by (rule real_sqrt_unique, use huge_pos in \<open>simp_all add: power2_eq_square algebra_simps\<close>)+

lemma huge_distances:
  "distance (Fin 0, Fin 0) (Fin (3 * huge), Fin 0) = Fin (3 * huge)"
  "distance (Fin (3 * huge), Fin 0) (Fin 0, Fin (4 * huge)) = Fin (5 * huge)"
  "distance (Fin 0, Fin (4 * huge)) (Fin 0, Fin 0) = Fin (4 * huge)"
proof -
  have s: "sqrt (3 * huge * (3 * huge) + 4 * huge * (4 * huge))
      = 5 * huge"
    by (rule real_sqrt_unique) (use huge_pos in \<open>simp_all add: power2_eq_square algebra_simps\<close>)
  show "distance (Fin 0, Fin 0) (Fin (3 * huge), Fin 0) = Fin (3 * huge)"
    by (simp add: distance_def fsub_def binary64_round_zero huge_exact huge_sqrt)
  show "distance (Fin (3 * huge), Fin 0) (Fin 0, Fin (4 * huge)) = Fin (5 * huge)"
    using s by (simp add: distance_def fsub_def binary64_round_zero huge_exact)
  show "distance (Fin 0, Fin (4 * huge)) (Fin 0, Fin 0) = Fin (4 * huge)"
    by (simp add: distance_def fsub_def binary64_round_zero huge_exact huge_sqrt)
qed

lemma huge_area:
  "fmul (Fin (1 / 2))
     (fabs (fsub (fmul (fsub (Fin (3 * huge)) (Fin 0)) (fsub (Fin (4 * huge)) (Fin 0)))
                 (fmul (fsub (Fin 0) (Fin 0)) (fsub (Fin 0) (Fin 0))))) = PInf"
proof -
  have a: "fsub (Fin (3 * huge)) (Fin 0) = Fin (3 * huge)"
    "fsub (Fin (4 * huge)) (Fin 0) = Fin (4 * huge)"
    "fsub (Fin 0) (Fin 0) = Fin 0"
    by (simp_all add: fsub_def huge_exact binary64_round_zero)
  have m: "fmul (Fin (3 * huge)) (Fin (4 * huge)) = PInf"
    by (rule fmul_huge) simp_all
  have z: "fmul (Fin 0) (Fin 0) = Fin 0" by (simp add: binary64_round_zero)
  show ?thesis unfolding a m z by (simp add: fsub_def)
qed

lemma minus_180: "fsub (Fin 0) (Fin 180) = Fin (- 180)"
  using binary64_round_exact[of "- 45" 2] by (simp add: fsub_def)

text \<open>
  Claim C9 fails at the top of the float range. For the right triangle with legs
  \<open>3 * huge\<close> and \<open>4 * huge\<close> the side lengths are exact, but every square of a side
  overflows: the cosine is \<open>inf + inf - inf\<close>, a NaN, which the clamp turns into \<open>1.0\<close>
  (\<^verbatim>\<open>min(1.0, nan)\<close> is \<open>1.0\<close>). The computed area is infinite, so positive, and all
  three angles are 0: their sum is 0 degrees, at distance 180 from 180.
\<close>

theorem huge_triangle_angles_are_zero:
  "triangle_metrics ((Fin 0, Fin 0), (Fin (3 * huge), Fin 0), (Fin 0, Fin (4 * huge)))
     = Inr \<lparr>area = PInf, min_angle_deg = Fin 0,
            edge_lengths = (Fin (3 * huge), Fin (5 * huge), Fin (4 * huge))\<rparr>
   \<and> flt (Fin 0) PInf
   \<and> internal_angle (Fin (3 * huge)) (Fin (5 * huge)) (Fin (4 * huge)) = Inr (Fin 0)
   \<and> internal_angle (Fin (5 * huge)) (Fin (4 * huge)) (Fin (3 * huge)) = Inr (Fin 0)
   \<and> internal_angle (Fin (4 * huge)) (Fin (3 * huge)) (Fin (5 * huge)) = Inr (Fin 0)
   \<and> degrees (Fin 0) = Inr (Fin 0)
   \<and> fadd (fadd (Fin 0) (Fin 0)) (Fin 0) = Fin 0
   \<and> flt (Fin (1 / 1000000)) (fabs (fsub (Fin 0) (Fin 180)))"
proof -
  have sum: "fadd (fadd (Fin 0) (Fin 0)) (Fin 0) = Fin 0"
    by (simp add: binary64_round_zero)
  have far: "flt (Fin (1 / 1000000)) (fabs (fsub (Fin 0) (Fin 180)))"
    unfolding minus_180 by simp
  have "min_internal_angle (Fin (3 * huge)) (Fin (5 * huge)) (Fin (4 * huge))
      = Inr (Fin 0)"
    by (simp add: min_internal_angle_def huge_angles degrees_zero py_min3_def py_min2_def)
  then have "triangle_metrics ((Fin 0, Fin 0), (Fin (3 * huge), Fin 0), (Fin 0, Fin (4 * huge)))
     = Inr \<lparr>area = PInf, min_angle_deg = Fin 0,
            edge_lengths = (Fin (3 * huge), Fin (5 * huge), Fin (4 * huge))\<rparr>"
    unfolding triangle_metrics_def Let_def split_conv fst_conv snd_conv huge_distances huge_area
    by simp
  then show ?thesis using huge_angles degrees_zero sum far by simp
qed

subsection \<open>Bounds on the minimum angle\<close>

lemma fle_zero_cases: "fle (Fin 0) w \<longleftrightarrow> (\<exists>u. w = Fin u \<and> 0 \<le> u) \<or> w = PInf"
  by (cases w) (auto simp: fle_def feq_def)

lemma internal_angle_nonneg: "internal_angle a b c = Inr r \<Longrightarrow> fle (Fin 0) r"
proof -
  assume h: "internal_angle a b c = Inr r"
  show ?thesis
  proof (cases "feq b (Fin 0) \<or> feq c (Fin 0)")
    case True
    with h show ?thesis by (auto simp: internal_angle_def fle_zero_Fin)
  next
    case False
    then obtain cs where "acos (py_max2 (Fin (- 1)) (py_min2 (Fin 1) cs)) = Inr r"
      using h by (auto simp: internal_angle_def split: sum.splits)
    moreover obtain x where "py_max2 (Fin (- 1)) (py_min2 (Fin 1) cs) = Fin x" "- 1 \<le> x" "x \<le> 1"
      using clamp_in_range by blast
    ultimately have "r = binary64_round (arccos x)" by simp
    moreover have "0 \<le> arccos x" using \<open>- 1 \<le> x\<close> \<open>x \<le> 1\<close> by (rule arccos_lbound)
    ultimately show ?thesis by (simp add: binary64_round_nonneg)
  qed
qed

lemma degrees_nonneg: "fle (Fin 0) r \<Longrightarrow> degrees r = Inr d \<Longrightarrow> fle (Fin 0) d"
proof -
  assume r: "fle (Fin 0) r" and d: "degrees r = Inr d"
  have d': "d = fquot (fmul r (Fin 180)) math_pi" using d by (simp add: degrees_total)
  have "fle (Fin 0) (fmul r (Fin 180))"
    using r unfolding fle_zero_cases[of r]
    by (auto simp: binary64_round_nonneg fle_zero_PInf)
  then consider u where "fmul r (Fin 180) = Fin u" "0 \<le> u" | "fmul r (Fin 180) = PInf"
    unfolding fle_zero_cases by blast
  then show ?thesis
  proof cases
    case 1
    then show ?thesis unfolding d' by (simp add: math_pi_def binary64_round_nonneg)
  next
    case 2
    then show ?thesis unfolding d' by (simp add: math_pi_def fle_zero_PInf)
  qed
qed

lemma py_min2_nonneg: "fle (Fin 0) a \<Longrightarrow> fle (Fin 0) b \<Longrightarrow> fle (Fin 0) (py_min2 a b)"
  by (simp add: py_min2_def)

lemma min_internal_angle_nonneg:
  "min_internal_angle ab bc ca = Inr m \<Longrightarrow> fle (Fin 0) m"
  unfolding min_internal_angle_def py_min3_def
  by (auto split: sum.splits intro!: py_min2_nonneg dest!: internal_angle_nonneg
      intro: degrees_nonneg)

text \<open>
  Whenever the metrics are returned, the minimum angle is a number that is not negative
  (possibly infinite, never NaN).
\<close>

lemma min_angle_deg_nonneg: "triangle_metrics t = Inr m \<Longrightarrow> fle (Fin 0) (min_angle_deg m)"
  unfolding triangle_metrics_def Let_def
  by (auto split: prod.splits sum.splits dest: min_internal_angle_nonneg)

lemma internal_angle_zero_side:
  "b = Fin 0 \<or> c = Fin 0 \<Longrightarrow> internal_angle a b c = Inr (Fin 0)"
  by (auto simp: internal_angle_def feq_def)

lemma py_min2_zero:
  "fle (Fin 0) a \<Longrightarrow> py_min2 a (Fin 0) = Fin 0"
  "fle (Fin 0) b \<Longrightarrow> py_min2 (Fin 0) b = Fin 0"
  unfolding fle_zero_cases by (auto simp: py_min2_def)

lemma py_min3_zero:
  assumes "fle (Fin 0) d0" "fle (Fin 0) d1" "fle (Fin 0) d2"
    and "d0 = Fin 0 \<or> d1 = Fin 0 \<or> d2 = Fin 0"
  shows "py_min3 d0 d1 d2 = Fin 0"
proof -
  have n: "fle (Fin 0) (py_min2 d0 d1)" by (rule py_min2_nonneg[OF assms(1,2)])
  from assms(4) consider "d0 = Fin 0" | "d1 = Fin 0" | "d2 = Fin 0" by blast
  then show ?thesis
  proof cases
    case 1
    then have "py_min2 d0 d1 = Fin 0" using py_min2_zero(2)[OF assms(2)] by simp
    then show ?thesis unfolding py_min3_def using py_min2_zero(2)[OF assms(3)] by simp
  next
    case 2
    then have "py_min2 d0 d1 = Fin 0" using py_min2_zero(1)[OF assms(1)] by simp
    then show ?thesis unfolding py_min3_def using py_min2_zero(2)[OF assms(3)] by simp
  next
    case 3
    then show ?thesis unfolding py_min3_def using py_min2_zero(1)[OF n] by simp
  qed
qed

lemma min_internal_angle_zero_side:
  assumes z: "ab = Fin 0 \<or> bc = Fin 0 \<or> ca = Fin 0"
    and r: "min_internal_angle ab bc ca = Inr m"
  shows "m = Fin 0"
proof -
  from r obtain r0 r1 r2 d0 d1 d2 where
    i: "internal_angle ab bc ca = Inr r0" "internal_angle bc ca ab = Inr r1"
       "internal_angle ca ab bc = Inr r2"
    and d: "degrees r0 = Inr d0" "degrees r1 = Inr d1" "degrees r2 = Inr d2"
    and m: "m = py_min3 d0 d1 d2"
    by (auto simp: min_internal_angle_def split: sum.splits)
  have n: "fle (Fin 0) d0" "fle (Fin 0) d1" "fle (Fin 0) d2"
    using i d internal_angle_nonneg degrees_nonneg by blast+
  have "r0 = Fin 0 \<or> r1 = Fin 0 \<or> r2 = Fin 0"
    using z i internal_angle_zero_side[of bc ca ab] internal_angle_zero_side[of ca ab bc]
      internal_angle_zero_side[of ab bc ca]
    by auto
  then have "d0 = Fin 0 \<or> d1 = Fin 0 \<or> d2 = Fin 0"
    using d degrees_zero by auto
  then show ?thesis unfolding m by (rule py_min3_zero[OF n])
qed

text \<open>
  What holds of a triangle with an edge of computed length zero: the two passes that
  have the zero edge as an adjacent side return 0 by the guard, so the minimum angle,
  when there is one, is exactly 0; the only other outcome is \<^verbatim>\<open>ZeroDivisionError\<close>.
\<close>

lemma zero_edge_min_angle_is_zero_or_raises:
  assumes "distance a b = Fin 0 \<or> distance b c = Fin 0 \<or> distance c a = Fin 0"
  shows "triangle_metrics (a, b, c) = Inl ZeroDivisionError
     \<or> (\<exists>m. triangle_metrics (a, b, c) = Inr m \<and> min_angle_deg m = Fin 0)"
proof (cases "triangle_metrics (a, b, c)")
  case (Inl e)
  then show ?thesis using triangle_metrics_error by blast
next
  case (Inr m)
  then obtain ma where "min_internal_angle (distance a b) (distance b c) (distance c a) = Inr ma"
    and "min_angle_deg m = ma"
    by (auto simp: triangle_metrics_def Let_def split: sum.splits)
  then have "min_angle_deg m = Fin 0"
    using min_internal_angle_zero_side[OF assms] by blast
  with Inr show ?thesis by simp
qed

lemma binary64_round_two: "binary64_round 2 = Fin 2"
  using binary64_round_pow2[of 1] by simp

lemma example_zero_edge_metrics:
  "triangle_metrics ((Fin 0, Fin 0), (Fin 0, Fin 0), (Fin 1, Fin 0))
     = Inr \<lparr>area = Fin 0, min_angle_deg = Fin 0, edge_lengths = (Fin 0, Fin 1, Fin 1)\<rparr>"
  by (simp add: triangle_metrics_def min_internal_angle_def internal_angle_def degrees_def
      fdiv_def math_pi_def distance_def feq_def py_min3_def py_min2_def py_max2_def Let_def
      float_eval binary64_round_two)

lemma zero_edge_min_angle_example:
  "distance (Fin 0, Fin 0) (Fin 0, Fin 0) = Fin 0
   \<and> triangle_metrics ((Fin 0, Fin 0), (Fin 0, Fin 0), (Fin 1, Fin 0))
       = Inr \<lparr>area = Fin 0, min_angle_deg = Fin 0, edge_lengths = (Fin 0, Fin 1, Fin 1)\<rparr>
   \<and> (\<exists>m. triangle_metrics ((Fin 0, Fin 0), (Fin 0, Fin 0), (Fin 1, Fin 0)) = Inr m
          \<and> min_angle_deg m = Fin 0)"
proof -
  have d: "distance (Fin 0, Fin 0) (Fin 0, Fin 0) = Fin 0" by (rule distance_coincident)
  have "triangle_metrics ((Fin 0, Fin 0), (Fin 0, Fin 0), (Fin 1, Fin 0)) \<noteq> Inl ZeroDivisionError"
    by (simp add: example_zero_edge_metrics)
  then have "\<exists>m. triangle_metrics ((Fin 0, Fin 0), (Fin 0, Fin 0), (Fin 1, Fin 0)) = Inr m
          \<and> min_angle_deg m = Fin 0"
    using zero_edge_min_angle_is_zero_or_raises[of "(Fin 0, Fin 0)" "(Fin 0, Fin 0)" "(Fin 1, Fin 0)"] d
    by blast
  with d example_zero_edge_metrics show ?thesis by blast
qed

end
